theory Spec2Isabelle
  imports Complex_Main "HOL-Library.Log_Nat" "HOL-Library.Multiset" "HOL-Library.Word"
begin

section \<open>The exam service of the login portal (src/services/testService.ts)\<close>

text \<open>
  The service object \<open>testService\<close> gates the exam to a time window, shuffles the question
  catalogue per participant, keeps one status document per participant in a document store
  and scores and stores results. Each function of the object is embedded below under its own
  name, in the order of the source file.
\<close>

subsection \<open>JavaScript numbers\<close>

text \<open>
  A JavaScript number is an IEEE-754 binary64 value. The finite ones are modelled by the
  rational they denote; every arithmetic operation computes the exact result and rounds it
  to the nearest binary64 value, ties to the even significand (\<open>fl\<close>). \<open>expo x\<close> is the
  binary exponent \<open>e\<close> with \<open>2^e \<le> x < 2^(e+1)\<close>, and a binary64 value with that
  exponent is a multiple of \<open>2^(e - 52)\<close>. The model covers the normal range: the values
  this service computes lie between \<open>2^-33\<close> and \<open>2^70\<close>, far from underflow and overflow.
  Negative zero is not distinguished from zero.
\<close>

definition expo :: "rat \<Rightarrow> int" where
  "expo x = (if 1 \<le> x then bitlen \<lfloor>x\<rfloor> - 1 else - bitlen (\<lceil>1 / x\<rceil> - 1))"

definition round_half_even :: "rat \<Rightarrow> int" where
  "round_half_even x =
     (let f = \<lfloor>x\<rfloor>; d = x - of_int f
      in if d < 1 / 2 then f else if 1 / 2 < d then f + 1 else if even f then f else f + 1)"

definition fl_pos :: "rat \<Rightarrow> rat" where
  "fl_pos x = (let u = 2 powi (expo x - 52) in of_int (round_half_even (x / u)) * u)"

definition fl :: "rat \<Rightarrow> rat" where
  "fl x = (if x = 0 then 0 else if x < 0 then - fl_pos (- x) else fl_pos x)"

text \<open>
  The four operations on finite numbers. \<open>%\<close> is the remainder of the truncating division
  and is exact in binary64; it is used here on a non-negative dividend and a positive
  divisor only, where truncation is the floor.
\<close>

definition js_add :: "rat \<Rightarrow> rat \<Rightarrow> rat" where
  "js_add x y = fl (x + y)"

definition js_mul :: "rat \<Rightarrow> rat \<Rightarrow> rat" where
  "js_mul x y = fl (x * y)"

definition js_div :: "rat \<Rightarrow> rat \<Rightarrow> rat" where
  "js_div x y = fl (x / y)"

definition js_mod :: "rat \<Rightarrow> rat \<Rightarrow> rat" where
  "js_mod x y = x - y * of_int \<lfloor>x / y\<rfloor>"

text \<open>
  Where a divisor can be zero the result can be \<open>NaN\<close> or an infinity, so the scoring
  functions work on the full type of numbers.
\<close>

datatype number = Fin rat | PosInfinity | NegInfinity | NaN

fun num_div :: "number \<Rightarrow> number \<Rightarrow> number" where
  "num_div NaN _ = NaN"
| "num_div _ NaN = NaN"
| "num_div (Fin x) (Fin y) =
     (if y = 0 then (if x = 0 then NaN else if 0 < x then PosInfinity else NegInfinity)
      else Fin (js_div x y))"
| "num_div (Fin x) _ = Fin 0"
| "num_div PosInfinity (Fin y) = (if 0 \<le> y then PosInfinity else NegInfinity)"
| "num_div NegInfinity (Fin y) = (if 0 \<le> y then NegInfinity else PosInfinity)"
| "num_div _ _ = NaN"

fun num_mul :: "number \<Rightarrow> number \<Rightarrow> number" where
  "num_mul NaN _ = NaN"
| "num_mul _ NaN = NaN"
| "num_mul (Fin x) (Fin y) = Fin (js_mul x y)"
| "num_mul (Fin x) PosInfinity =
     (if x = 0 then NaN else if 0 < x then PosInfinity else NegInfinity)"
| "num_mul (Fin x) NegInfinity =
     (if x = 0 then NaN else if 0 < x then NegInfinity else PosInfinity)"
| "num_mul PosInfinity (Fin y) =
     (if y = 0 then NaN else if 0 < y then PosInfinity else NegInfinity)"
| "num_mul NegInfinity (Fin y) =
     (if y = 0 then NaN else if 0 < y then NegInfinity else PosInfinity)"
| "num_mul PosInfinity PosInfinity = PosInfinity"
| "num_mul NegInfinity NegInfinity = PosInfinity"
| "num_mul _ _ = NegInfinity"

text \<open>
  \<open>Math.round\<close> returns the nearest integer, a tie going towards plus infinity: it is
  \<open>\<lfloor>x + 1/2\<rfloor>\<close>, computed exactly. It keeps \<open>NaN\<close> and the infinities.
\<close>

fun Math_round :: "number \<Rightarrow> number" where
  "Math_round (Fin x) = Fin (of_int \<lfloor>x + 1 / 2\<rfloor>)"
| "Math_round n = n"

text \<open>The comparison \<open>a >= b\<close>: false as soon as one side is \<open>NaN\<close>.\<close>

fun num_ge :: "number \<Rightarrow> number \<Rightarrow> bool" where
  "num_ge NaN _ = False"
| "num_ge _ NaN = False"
| "num_ge (Fin x) (Fin y) = (y \<le> x)"
| "num_ge PosInfinity _ = True"
| "num_ge _ NegInfinity = True"
| "num_ge _ _ = False"

subsection \<open>The data model\<close>

text \<open>
  A string is its sequence of UTF-16 code units, which is what \<open>split('')\<close> and
  \<open>charCodeAt\<close> see. A \<open>Date\<close> is its time value, the milliseconds since the epoch.
\<close>

type_synonym jsstring = "16 word list"

type_synonym date = int

record TestSettings =
  testStartTime :: date
  testDuration :: int
  maxTabSwitches :: int
  isTestActive :: bool

record TestQuestion =
  question_id :: string
  question :: string
  options :: "string list"
  correctAnswer :: int
  category :: string

record TestAnswer =
  questionId :: string
  selectedAnswer :: int
  isCorrect :: bool

record Score =
  score :: nat
  percentage :: number

record Grade =
  grade :: string
  color :: string
  message :: string

subsection \<open>The exam window\<close>

text \<open>
  \<open>getTestSettings\<close> builds the start instant from the literal \<open>'2025-08-30T11:36:00'\<close>,
  which has no zone suffix and is read as local time: the time value is the one of
  11:36:00 UTC on that day, 1756553760000, plus the host's zone offset in minutes
  (\<open>getTimezoneOffset\<close>, positive west of Greenwich). The offset is the parameter
  \<open>tz\<close>; the reading of the clock is the parameter \<open>now\<close>.
\<close>

definition getTestSettings :: "int \<Rightarrow> TestSettings" where
  "getTestSettings tz =
     \<lparr>testStartTime = 1756553760000 + tz * 60000,
      testDuration = 15,
      maxTabSwitches = 5,
      isTestActive = True\<rparr>"

definition isTestAvailable :: "int \<Rightarrow> date \<Rightarrow> bool" where
  "isTestAvailable tz now =
     (let settings = getTestSettings tz;
          start = testStartTime settings;
          end = start + 30 * 60 * 1000
      in now \<ge> start \<and> now \<le> end)"

definition getTestEndTime :: "int \<Rightarrow> date" where
  "getTestEndTime tz = (let settings = getTestSettings tz in testStartTime settings + 30 * 60 * 1000)"

subsection \<open>The shuffle\<close>

text \<open>
  \<open>shuffleQuestions\<close> never looks inside a question, so the list is of any type here; the
  service calls it on the catalogue of \<open>TestQuestion\<close>s.

  The seed is the sum of the code units of the id. Its additions are exact: a sum that
  reaches \<open>2^53\<close> needs more than \<open>2^37\<close> code units, and no engine has a string that
  long. The product \<open>random * 9301\<close> of the first call can pass \<open>2^53\<close> (an id of fifteen
  million code units \<open>0xFFFF\<close> is enough), so the generator works with rounding
  arithmetic; \<open>seededRandom\<close> returns the number drawn and the new value of the variable
  \<open>random\<close> it closes over.

  The loop index \<open>i\<close> is an integer: on the empty list it starts at \<open>-1\<close> and the loop
  does not run. \<open>i + 1\<close> is a small integer, exact in binary64. The destructuring
  assignment reads both elements before it writes: position \<open>i\<close> gets the old element at
  \<open>j\<close>, then position \<open>j\<close> gets the old element at \<open>i\<close>. The index \<open>j\<close> drawn is always
  between 0 and \<open>i\<close> (lemma \<open>draw_in_range\<close> below), so the assignment never reads or
  writes outside the array.
\<close>

definition seededRandom :: "rat \<Rightarrow> rat \<times> rat" where
  "seededRandom random =
     (let random' = js_mod (js_add (js_mul random 9301) 49297) 233280
      in (js_div random' 233280, random'))"

definition swap :: "'a list \<Rightarrow> int \<Rightarrow> int \<Rightarrow> 'a list" where
  "swap shuffled i j = shuffled[nat i := shuffled ! nat j, nat j := shuffled ! nat i]"

function shuffle_loop :: "int \<Rightarrow> rat \<Rightarrow> 'a list \<Rightarrow> 'a list" where
  "shuffle_loop i random shuffled =
     (if i > 0
      then shuffle_loop (i - 1) (snd (seededRandom random))
             (swap shuffled i \<lfloor>js_mul (fst (seededRandom random)) (of_int (i + 1))\<rfloor>)
      else shuffled)"
  by pat_completeness auto
termination
  by (relation "measure (\<lambda>(i, random, shuffled). nat i)") auto

declare shuffle_loop.simps [simp del]

definition shuffleQuestions :: "'a list \<Rightarrow> jsstring \<Rightarrow> 'a list" where
  "shuffleQuestions questions userId =
     (let seed = foldl (\<lambda>acc char. acc + unat char) 0 userId;
          shuffled = questions
      in shuffle_loop (int (length shuffled) - 1) (of_nat seed) shuffled)"

text \<open>
  The reference algorithm, following the words of the specification, in exact arithmetic:
  the seed is the sum of the character codes; the generator is the recurrence
  \<open>state = (state * 9301 + 49297) mod 233280\<close>, each call returning \<open>state / 233280\<close>;
  and for \<open>i\<close> from \<open>length - 1\<close> down to 1 the elements at \<open>i\<close> and at
  \<open>j = floor (generator() * (i + 1))\<close> are swapped.
\<close>

definition ref_seed :: "jsstring \<Rightarrow> nat" where
  "ref_seed userId = sum_list (map unat userId)"

definition ref_next :: "nat \<Rightarrow> nat" where
  "ref_next state = (state * 9301 + 49297) mod 233280"

fun ref_fisher_yates :: "nat \<Rightarrow> nat \<Rightarrow> 'a list \<Rightarrow> 'a list" where
  "ref_fisher_yates 0 state xs = xs"
| "ref_fisher_yates (Suc i) state xs =
     (let state' = ref_next state;
          j = nat \<lfloor>(of_nat state' / 233280 :: rat) * of_nat (Suc i + 1)\<rfloor>
      in ref_fisher_yates i state' (xs[Suc i := xs ! j, j := xs ! Suc i]))"

definition ref_shuffle :: "'a list \<Rightarrow> jsstring \<Rightarrow> 'a list" where
  "ref_shuffle questions userId =
     ref_fisher_yates (length questions - 1) (ref_seed userId) questions"

subsection \<open>Scoring\<close>

definition calculateScore :: "TestAnswer list \<Rightarrow> Score" where
  "calculateScore answers =
     (let correctAnswers = length (filter isCorrect answers);
          totalQuestions = length answers;
          percentage = Math_round (num_mul (num_div (Fin (of_nat correctAnswers))
                                                    (Fin (of_nat totalQuestions)))
                                           (Fin 100))
      in \<lparr>score = correctAnswers, percentage = percentage\<rparr>)"

definition getGradeFromPercentage :: "number \<Rightarrow> Grade" where
  "getGradeFromPercentage p =
     (if num_ge p (Fin 90) then
        \<lparr>grade = ''A+'', color = ''text-green-400'', message = ''Outstanding Performance!''\<rparr>
      else if num_ge p (Fin 80) then
        \<lparr>grade = ''A'', color = ''text-green-400'', message = ''Excellent Work!''\<rparr>
      else if num_ge p (Fin 70) then
        \<lparr>grade = ''B+'', color = ''text-blue-400'', message = ''Good Performance!''\<rparr>
      else if num_ge p (Fin 60) then
        \<lparr>grade = ''B'', color = ''text-blue-400'', message = ''Satisfactory!''\<rparr>
      else if num_ge p (Fin 50) then
        \<lparr>grade = ''C'', color = ''text-yellow-400'', message = ''Needs Improvement!''\<rparr>
      else
        \<lparr>grade = ''F'', color = ''text-red-400'', message = ''Better Luck Next Time!''\<rparr>)"

subsection \<open>The document store\<close>

text \<open>
  The store is the Firestore client, which is not part of the repository. What the service
  needs from it is modelled as a world that the operations pass along: the collection
  \<open>userTestStatus\<close> keyed by participant id, the append-only collection \<open>testResults\<close>,
  the clock read by \<open>new Date()\<close>, and a schedule of faults. Every call of a store
  primitive takes the next entry of the schedule: \<open>Some e\<close> makes the call reject with
  \<open>e\<close> and leave the store unchanged, \<open>None\<close> (or an exhausted schedule) lets it go
  through. An error has an optional \<open>code\<close> and a \<open>message\<close>; those raised by
  \<open>new Error(...)\<close> have no code.

  A stored status document is schemaless: any field may be missing, so every field is
  optional. The same record serves as the partial document of \<open>updateDoc\<close>, which
  overwrites the fields that are present and rejects with code \<open>not-found\<close> when the
  document does not exist. \<open>addDoc\<close> assigns the identity of the new document; the model
  numbers the documents in the order of their creation. A violation count is a JavaScript
  number, read and written as a finite binary64 value: \<open>currentCount + 1\<close> is the rounded
  addition \<open>js_add\<close>, and \<open>x || 0\<close> on a number \<open>x\<close> is \<open>x\<close> itself unless \<open>x\<close> is
  0, where both sides are 0.
\<close>

record JsError =
  err_code :: "string option"
  err_message :: string

record StatusDoc =
  doc_userId :: "jsstring option"
  doc_hasSubmitted :: "bool option"
  doc_submissionDate :: "date option"
  doc_tabSwitchCount :: "rat option"
  doc_isTestCancelled :: "bool option"
  doc_lastActivity :: "date option"

record UserTestStatus =
  userId :: jsstring
  hasSubmitted :: bool
  submissionDate :: "date option"
  tabSwitchCount :: rat
  isTestCancelled :: bool
  lastActivity :: date

datatype ResultStatus = completed | in_progress | abandoned

record TestResult =
  r_userId :: jsstring
  r_userName :: string
  r_userEmail :: string
  r_admissionNumber :: string
  r_branch :: string
  r_score :: int
  r_totalQuestions :: int
  r_percentage :: number
  r_timeSpent :: int
  r_answers :: "TestAnswer list"
  r_completedAt :: date
  r_status :: ResultStatus

record World =
  userTestStatus :: "jsstring \<rightharpoonup> StatusDoc"
  testResults :: "(nat \<times> TestResult) list"
  faults :: "JsError option list"
  clock :: "nat \<Rightarrow> date"
  ticks :: nat

definition new_Date :: "World \<Rightarrow> date \<times> World" where
  "new_Date w = (clock w (ticks w), w\<lparr>ticks := ticks w + 1\<rparr>)"

definition fault_at :: "JsError option list \<Rightarrow> nat \<Rightarrow> JsError option" where
  "fault_at fs n = (if n < length fs then fs ! n else None)"

definition next_fault :: "World \<Rightarrow> JsError option \<times> World" where
  "next_fault w = (fault_at (faults w) 0, w\<lparr>faults := drop 1 (faults w)\<rparr>)"

definition getDoc :: "World \<Rightarrow> jsstring \<Rightarrow> (JsError + StatusDoc option) \<times> World" where
  "getDoc w uid =
     (case next_fault w of
        (Some e, w') \<Rightarrow> (Inl e, w')
      | (None, w') \<Rightarrow> (Inr (userTestStatus w' uid), w'))"

definition setDoc :: "World \<Rightarrow> jsstring \<Rightarrow> StatusDoc \<Rightarrow> (JsError + unit) \<times> World" where
  "setDoc w uid d =
     (case next_fault w of
        (Some e, w') \<Rightarrow> (Inl e, w')
      | (None, w') \<Rightarrow> (Inr (), w'\<lparr>userTestStatus := (userTestStatus w')(uid \<mapsto> d)\<rparr>))"

definition merge_fields :: "StatusDoc \<Rightarrow> StatusDoc \<Rightarrow> StatusDoc" where
  "merge_fields d u =
     \<lparr>doc_userId = (case doc_userId u of Some v \<Rightarrow> Some v | None \<Rightarrow> doc_userId d),
      doc_hasSubmitted = (case doc_hasSubmitted u of Some v \<Rightarrow> Some v | None \<Rightarrow> doc_hasSubmitted d),
      doc_submissionDate =
        (case doc_submissionDate u of Some v \<Rightarrow> Some v | None \<Rightarrow> doc_submissionDate d),
      doc_tabSwitchCount =
        (case doc_tabSwitchCount u of Some v \<Rightarrow> Some v | None \<Rightarrow> doc_tabSwitchCount d),
      doc_isTestCancelled =
        (case doc_isTestCancelled u of Some v \<Rightarrow> Some v | None \<Rightarrow> doc_isTestCancelled d),
      doc_lastActivity = (case doc_lastActivity u of Some v \<Rightarrow> Some v | None \<Rightarrow> doc_lastActivity d)\<rparr>"

definition not_found :: JsError where
  "not_found = \<lparr>err_code = Some ''not-found'', err_message = ''No document to update''\<rparr>"

definition updateDoc :: "World \<Rightarrow> jsstring \<Rightarrow> StatusDoc \<Rightarrow> (JsError + unit) \<times> World" where
  "updateDoc w uid u =
     (case next_fault w of
        (Some e, w') \<Rightarrow> (Inl e, w')
      | (None, w') \<Rightarrow>
          (case userTestStatus w' uid of
             None \<Rightarrow> (Inl not_found, w')
           | Some d \<Rightarrow> (Inr (), w'\<lparr>userTestStatus := (userTestStatus w')(uid \<mapsto> merge_fields d u)\<rparr>)))"

definition addDoc :: "World \<Rightarrow> TestResult \<Rightarrow> (JsError + nat) \<times> World" where
  "addDoc w r =
     (case next_fault w of
        (Some e, w') \<Rightarrow> (Inl e, w')
      | (None, w') \<Rightarrow>
          (let new_id = length (testResults w')
           in (Inr new_id, w'\<lparr>testResults := testResults w' @ [(new_id, r)]\<rparr>)))"

subsection \<open>The status of a participant\<close>

text \<open>
  The default status object of \<open>getUserTestStatus\<close> has no submission date, and the
  document written for it has none either.
\<close>

definition defaultStatus :: "jsstring \<Rightarrow> date \<Rightarrow> UserTestStatus" where
  "defaultStatus uid t =
     \<lparr>userId = uid, hasSubmitted = False, submissionDate = None, tabSwitchCount = 0,
      isTestCancelled = False, lastActivity = t\<rparr>"

definition status_doc :: "UserTestStatus \<Rightarrow> StatusDoc" where
  "status_doc st =
     \<lparr>doc_userId = Some (userId st),
      doc_hasSubmitted = Some (hasSubmitted st),
      doc_submissionDate = submissionDate st,
      doc_tabSwitchCount = Some (tabSwitchCount st),
      doc_isTestCancelled = Some (isTestCancelled st),
      doc_lastActivity = Some (lastActivity st)\<rparr>"

text \<open>
  The handler of the inner \<open>try\<close>: on the codes \<open>permission-denied\<close> and \<open>not-found\<close> it
  writes the default document and returns it, and it throws every other error again. The
  inner \<open>try\<close> block holds the read and, when the document is missing, the first write, so
  an error of that write reaches this handler too.
\<close>

definition status_fallback ::
  "World \<Rightarrow> jsstring \<Rightarrow> JsError \<Rightarrow> (JsError + UserTestStatus) \<times> World" where
  "status_fallback w uid docError =
     (if err_code docError = Some ''permission-denied'' \<or> err_code docError = Some ''not-found''
      then (case new_Date w of
              (t, w1) \<Rightarrow>
                (case setDoc w1 uid (status_doc (defaultStatus uid t)) of
                   (Inl e, w2) \<Rightarrow> (Inl e, w2)
                 | (Inr _, w2) \<Rightarrow> (Inr (defaultStatus uid t), w2)))
      else (Inl docError, w))"

definition status_try :: "World \<Rightarrow> jsstring \<Rightarrow> (JsError + UserTestStatus) \<times> World" where
  "status_try w uid =
     (case getDoc w uid of
        (Inl docError, w1) \<Rightarrow> status_fallback w1 uid docError
      | (Inr (Some data), w1) \<Rightarrow>
          (case (case doc_lastActivity data of
                   Some t \<Rightarrow> (t, w1)
                 | None \<Rightarrow> new_Date w1) of
             (t, w2) \<Rightarrow>
               (Inr \<lparr>userId = uid,
                     hasSubmitted = (case doc_hasSubmitted data of Some b \<Rightarrow> b | None \<Rightarrow> False),
                     submissionDate = doc_submissionDate data,
                     tabSwitchCount = (case doc_tabSwitchCount data of Some n \<Rightarrow> n | None \<Rightarrow> 0),
                     isTestCancelled =
                       (case doc_isTestCancelled data of Some b \<Rightarrow> b | None \<Rightarrow> False),
                     lastActivity = t\<rparr>, w2))
      | (Inr None, w1) \<Rightarrow>
          (case new_Date w1 of
             (t, w2) \<Rightarrow>
               (case setDoc w2 uid (status_doc (defaultStatus uid t)) of
                  (Inl docError, w3) \<Rightarrow> status_fallback w3 uid docError
                | (Inr _, w3) \<Rightarrow> (Inr (defaultStatus uid t), w3))))"

text \<open>
  The outer handler logs the error and throws a new one, with the context in front of the
  message of the error it caught.
\<close>

definition getUserTestStatus :: "World \<Rightarrow> jsstring \<Rightarrow> (JsError + UserTestStatus) \<times> World" where
  "getUserTestStatus w uid =
     (case status_try w uid of
        (Inl error, w') \<Rightarrow>
          (Inl \<lparr>err_code = None,
                err_message = ''Failed to get user test status: '' @ err_message error\<rparr>, w')
      | (Inr st, w') \<Rightarrow> (Inr st, w'))"

text \<open>
  The other operations catch every error and throw a new one that keeps the message, or
  carries a fixed one when the message is empty (\<open>error.message || '...'\<close>).
\<close>

definition rethrow :: "string \<Rightarrow> JsError \<Rightarrow> JsError" where
  "rethrow fallback error =
     \<lparr>err_code = None,
      err_message = (if err_message error = [] then fallback else err_message error)\<rparr>"

definition markTestAsSubmitted :: "World \<Rightarrow> jsstring \<Rightarrow> (JsError + unit) \<times> World" where
  "markTestAsSubmitted w uid =
     (case getDoc w uid of
        (Inl error, w1) \<Rightarrow> (Inl (rethrow ''Failed to mark test as submitted'' error), w1)
      | (Inr statusDoc, w1) \<Rightarrow>
          (case new_Date w1 of
             (t1, w2) \<Rightarrow>
               (case new_Date w2 of
                  (t2, w3) \<Rightarrow>
                    (case (case statusDoc of
                             Some _ \<Rightarrow>
                               updateDoc w3 uid
                                 \<lparr>doc_userId = None, doc_hasSubmitted = Some True,
                                  doc_submissionDate = Some t1, doc_tabSwitchCount = None,
                                  doc_isTestCancelled = None, doc_lastActivity = Some t2\<rparr>
                           | None \<Rightarrow>
                               setDoc w3 uid
                                 \<lparr>doc_userId = Some uid, doc_hasSubmitted = Some True,
                                  doc_submissionDate = Some t1, doc_tabSwitchCount = Some 0,
                                  doc_isTestCancelled = Some False, doc_lastActivity = Some t2\<rparr>) of
                       (Inl error, w4) \<Rightarrow>
                         (Inl (rethrow ''Failed to mark test as submitted'' error), w4)
                     | (Inr _, w4) \<Rightarrow> (Inr (), w4)))))"

definition incrementTabSwitchCount :: "World \<Rightarrow> jsstring \<Rightarrow> (JsError + rat) \<times> World" where
  "incrementTabSwitchCount w uid =
     (case getDoc w uid of
        (Inl error, w1) \<Rightarrow> (Inl (rethrow ''Failed to increment tab switch count'' error), w1)
      | (Inr statusDoc, w1) \<Rightarrow>
          (let newCount = (case statusDoc of
                             Some data \<Rightarrow>
                               (let currentCount =
                                      (case doc_tabSwitchCount data of Some n \<Rightarrow> n | None \<Rightarrow> 0)
                                in js_add currentCount 1)
                           | None \<Rightarrow> 1)
           in case new_Date w1 of
                (t, w2) \<Rightarrow>
                  (case (case statusDoc of
                           Some _ \<Rightarrow>
                             updateDoc w2 uid
                               \<lparr>doc_userId = None, doc_hasSubmitted = None,
                                doc_submissionDate = None, doc_tabSwitchCount = Some newCount,
                                doc_isTestCancelled = None, doc_lastActivity = Some t\<rparr>
                         | None \<Rightarrow>
                             setDoc w2 uid
                               \<lparr>doc_userId = Some uid, doc_hasSubmitted = Some False,
                                doc_submissionDate = None, doc_tabSwitchCount = Some newCount,
                                doc_isTestCancelled = Some False, doc_lastActivity = Some t\<rparr>) of
                     (Inl error, w3) \<Rightarrow>
                       (Inl (rethrow ''Failed to increment tab switch count'' error), w3)
                   | (Inr _, w3) \<Rightarrow> (Inr newCount, w3))))"

subsection \<open>Submitting a result\<close>

text \<open>
  \<open>submitTestResult\<close> is called as a method of \<open>testService\<close>, so \<open>this\<close> is the service
  and \<open>this.markTestAsSubmitted\<close> is the function above. The document it adds is the
  caller's result with \<open>completedAt\<close> replaced by the clock's reading.
\<close>

definition submitTestResult :: "World \<Rightarrow> TestResult \<Rightarrow> (JsError + nat) \<times> World" where
  "submitTestResult w testResult =
     (case markTestAsSubmitted w (r_userId testResult) of
        (Inl error, w1) \<Rightarrow> (Inl (rethrow ''Failed to submit test result'' error), w1)
      | (Inr _, w1) \<Rightarrow>
          (case new_Date w1 of
             (t, w2) \<Rightarrow>
               (case addDoc w2 (testResult\<lparr>r_completedAt := t\<rparr>) of
                  (Inl error, w3) \<Rightarrow> (Inl (rethrow ''Failed to submit test result'' error), w3)
                | (Inr docRef_id, w3) \<Rightarrow> (Inr docRef_id, w3))))"

subsection \<open>Vocabulary of the statements and example worlds\<close>

text \<open>
  The handler of \<open>getUserTestStatus\<close> recovers from the two codes below; an error that
  leaves \<open>getUserTestStatus\<close> carries the context in front of the message it wraps.
\<close>

definition recoverable :: "JsError \<Rightarrow> bool" where
  "recoverable e = (err_code e = Some ''permission-denied'' \<or> err_code e = Some ''not-found'')"

definition wrapped :: "JsError \<Rightarrow> JsError" where
  "wrapped e =
     \<lparr>err_code = None, err_message = ''Failed to get user test status: '' @ err_message e\<rparr>"

text \<open>
  The violation count the store holds for a participant, an absent record and a record
  without the field counting as 0.
\<close>

definition stored_count :: "World \<Rightarrow> jsstring \<Rightarrow> rat" where
  "stored_count w uid =
     (case userTestStatus w uid of
        Some d \<Rightarrow> (case doc_tabSwitchCount d of Some n \<Rightarrow> n | None \<Rightarrow> 0)
      | None \<Rightarrow> 0)"

text \<open>
  The participant \<open>p1\<close>; a world with an empty store, no fault and a clock that starts at
  1000 and advances by one at every reading; the same world with a record of \<open>p1\<close> that
  counts four violations, and with one that counts \<open>2^53 = 9007199254740992\<close> of them; a
  result to submit; two store errors; and an answer with a given correctness flag.
\<close>

definition p1 :: jsstring where
  "p1 = [0x70, 0x31]"

definition fresh_world :: World where
  "fresh_world =
     \<lparr>userTestStatus = Map.empty, testResults = [], faults = [],
      clock = (\<lambda>n. 1000 + int n), ticks = 0\<rparr>"

definition counted_world :: World where
  "counted_world =
     fresh_world\<lparr>userTestStatus :=
       [p1 \<mapsto> status_doc ((defaultStatus p1 900)\<lparr>tabSwitchCount := 4\<rparr>)]\<rparr>"

definition saturated_world :: World where
  "saturated_world =
     fresh_world\<lparr>userTestStatus :=
       [p1 \<mapsto> status_doc ((defaultStatus p1 900)\<lparr>tabSwitchCount := 9007199254740992\<rparr>)]\<rparr>"

definition sample_result :: TestResult where
  "sample_result =
     \<lparr>r_userId = p1, r_userName = ''Ada'', r_userEmail = ''ada@example.org'',
      r_admissionNumber = ''123456'', r_branch = ''Civil Engineering'', r_score = 2,
      r_totalQuestions = 3, r_percentage = Fin 67, r_timeSpent = 600, r_answers = [],
      r_completedAt = 5, r_status = completed\<rparr>"

definition unavailable :: JsError where
  "unavailable = \<lparr>err_code = Some ''unavailable'', err_message = ''The service is offline''\<rparr>"

definition permission_denied :: JsError where
  "permission_denied =
     \<lparr>err_code = Some ''permission-denied'', err_message = ''Missing or insufficient permissions''\<rparr>"

definition answer_marked :: "bool \<Rightarrow> TestAnswer" where
  "answer_marked b = \<lparr>questionId = ''q'', selectedAnswer = 0, isCorrect = b\<rparr>"

subsection \<open>Rounding a fraction with integer arithmetic\<close>

text \<open>
  For the proofs: the rounding of a fraction \<open>a / b\<close> of positive integers computed on
  integers only. \<open>rhe_div a b\<close> rounds \<open>a / b\<close> to the nearest integer, ties to even;
  \<open>expo_frac a b\<close> is the binary exponent of \<open>a / b\<close>. \<open>draw_ok n k\<close> computes the
  rounded quotient \<open>k / n\<close>, multiplies it by \<open>n\<close>, rounds again and checks that the result
  is at least \<open>k\<close>; \<open>relevant n\<close> lists the \<open>k\<close> below \<open>n\<close> for which \<open>k / n\<close> is a
  value \<open>state / 233280\<close> of the generator.
\<close>

definition rhe_div :: "int \<Rightarrow> int \<Rightarrow> int" where
  "rhe_div a b =
     (let q = a div b; r = a mod b
      in if 2 * r < b then q else if b < 2 * r then q + 1 else if even q then q else q + 1)"

definition expo_frac :: "int \<Rightarrow> int \<Rightarrow> int" where
  "expo_frac a b =
     (if b \<le> a then bitlen (a div b) - 1 else - bitlen (- ((- b) div a) - 1))"

definition draw_ok :: "int \<Rightarrow> int \<Rightarrow> bool" where
  "draw_ok n k =
     (let t1 = nat (52 - expo_frac k n);
          m1 = rhe_div (k * 2 ^ t1) n;
          a = m1 * n;
          b = 2 ^ t1;
          e2 = expo_frac a b;
          t2 = nat (52 - e2);
          m2 = rhe_div (a * 2 ^ t2) b
      in 0 < m1 \<and> e2 \<le> 52 \<and> k * 2 ^ t2 \<le> m2)"

definition relevant :: "int \<Rightarrow> int list" where
  "relevant n = filter (\<lambda>k. (233280 * k) mod n = 0) [1..n - 1]"

section \<open>Properties\<close>

subsection \<open>Rounding to binary64\<close>

text \<open>
  The exponent brackets its argument; the rounded value is within half a unit in the last
  place, hence within a relative error of \<open>2^-53\<close>; natural numbers below \<open>2^53\<close> are
  not changed, and the rounding of a natural number is a natural number.
\<close>

lemma expo_bounds:
  assumes "0 < x"
  shows "2 powi (expo x) \<le> x \<and> x < 2 powi (expo x + 1)"
proof (cases "1 \<le> x")
  case True
  define n where "n = \<lfloor>x\<rfloor>"
  have n: "1 \<le> n" using True by (simp add: n_def)
  then have n0: "0 < n" by simp
  have b: "1 \<le> bitlen n" using n0 by (simp add: bitlen_alt_def)
  from bitlen_bounds [OF n0] have lo: "(2::int) ^ nat (bitlen n - 1) \<le> n"
    and hi: "n < 2 ^ nat (bitlen n)" by simp_all
  have e: "expo x = bitlen n - 1" using True by (simp add: expo_def n_def)
  have "(2::rat) powi (bitlen n - 1) = of_int (2 ^ nat (bitlen n - 1))"
    using b by (simp add: power_int_def)
  also have "\<dots> \<le> of_int n" using lo by (simp only: of_int_le_iff)
  also have "\<dots> \<le> x" using floor_correct [of x] by (simp add: n_def)
  finally have 1: "2 powi (expo x) \<le> x" by (simp add: e)
  have "n + 1 \<le> 2 ^ nat (bitlen n)" using hi by simp
  then have "(of_int (n + 1) :: rat) \<le> of_int (2 ^ nat (bitlen n))" by (simp only: of_int_le_iff)
  moreover have "x < of_int (n + 1)" using floor_correct [of x] by (simp add: n_def)
  ultimately have "x < of_int (2 ^ nat (bitlen n))" by linarith
  also have "\<dots> = 2 powi (bitlen n)" using b by (simp add: power_int_def)
  finally have 2: "x < 2 powi (expo x + 1)" by (simp add: e)
  from 1 2 show ?thesis by simp
next
  case False
  then have x1: "x < 1" by simp
  define m where "m = \<lceil>1 / x\<rceil> - 1"
  have "1 < 1 / x" using assms x1 by simp
  then have "1 < \<lceil>1 / x\<rceil>" by (simp add: less_ceiling_iff)
  then have m0: "0 < m" by (simp add: m_def)
  have b: "1 \<le> bitlen m" using m0 by (simp add: bitlen_alt_def)
  from bitlen_bounds [OF m0] have lo: "(2::int) ^ nat (bitlen m - 1) \<le> m"
    and hi: "m < 2 ^ nat (bitlen m)" by simp_all
  have e: "expo x = - bitlen m" using False by (simp add: expo_def m_def)
  have "1 / x \<le> of_int (m + 1)" using ceiling_correct [of "1 / x"] by (simp add: m_def)
  also have "(of_int (m + 1) :: rat) \<le> of_int (2 ^ nat (bitlen m))"
    using hi by (simp only: of_int_le_iff)
  finally have "1 / x \<le> 2 ^ nat (bitlen m)" by simp
  then have "1 \<le> 2 ^ nat (bitlen m) * x" using assms by (simp add: field_simps)
  then have "1 / 2 ^ nat (bitlen m) \<le> x" by (simp add: field_simps)
  moreover have "(2::rat) powi (- bitlen m) = 1 / 2 ^ nat (bitlen m)"
    using b by (simp add: power_int_def field_simps)
  ultimately have 1: "2 powi (expo x) \<le> x" by (simp add: e)
  have "of_int m < 1 / x" using ceiling_correct [of "1 / x"] by (simp add: m_def)
  moreover have "(of_int (2 ^ nat (bitlen m - 1)) :: rat) \<le> of_int m"
    using lo by (simp only: of_int_le_iff)
  then have "(2::rat) ^ nat (bitlen m - 1) \<le> of_int m" by simp
  ultimately have "2 ^ nat (bitlen m - 1) < 1 / x" by linarith
  then have "2 ^ nat (bitlen m - 1) * x < 1" using assms by (simp add: field_simps)
  then have "x < 1 / 2 ^ nat (bitlen m - 1)" by (simp add: field_simps)
  moreover have "(2::rat) powi (- bitlen m + 1) = 1 / 2 ^ nat (bitlen m - 1)"
  proof (cases "bitlen m = 1")
    case True
    then show ?thesis by simp
  next
    case False
    with b have "- bitlen m + 1 < 0" by simp
    moreover have "nat (- (- bitlen m + 1)) = nat (bitlen m - 1)" by simp
    ultimately show ?thesis by (simp add: power_int_def field_simps)
  qed
  ultimately have 2: "x < 2 powi (expo x + 1)" by (simp add: e)
  from 1 2 show ?thesis by simp
qed

lemma round_half_even_err: "\<bar>of_int (round_half_even z) - z\<bar> \<le> 1 / 2"
proof -
  have "of_int \<lfloor>z\<rfloor> \<le> z" "z < of_int \<lfloor>z\<rfloor> + 1" by linarith+
  then show ?thesis
    by (auto simp add: round_half_even_def Let_def abs_le_iff)
qed

lemma round_half_even_of_int [simp]: "round_half_even (of_int k) = k"
  by (simp add: round_half_even_def)

lemma fl_pos_err:
  assumes "0 < x"
  shows "\<bar>fl_pos x - x\<bar> \<le> x / 2 ^ 53"
proof -
  define u :: rat where "u = 2 powi (expo x - 52)"
  define m :: rat where "m = of_int (round_half_even (x / u))"
  have u0: "0 < u" by (simp add: u_def)
  have "\<bar>m - x / u\<bar> \<le> 1 / 2"
    unfolding m_def by (rule round_half_even_err)
  then have "\<bar>m - x / u\<bar> * u \<le> 1 / 2 * u"
    using u0 by (simp only: mult_le_cancel_right_pos)
  moreover have "\<bar>m - x / u\<bar> * u = \<bar>(m - x / u) * u\<bar>"
    using u0 by (simp add: abs_mult)
  moreover have "(m - x / u) * u = m * u - x"
    using u0 by (simp add: field_simps)
  ultimately have 1: "\<bar>m * u - x\<bar> \<le> u / 2" by simp
  have "u = 2 powi (expo x) / 2 ^ 52"
    by (simp add: u_def power_int_diff)
  moreover have "2 powi (expo x) \<le> x" using expo_bounds [OF assms] by simp
  ultimately have "u / 2 \<le> x / 2 ^ 53" by (simp add: field_simps)
  with 1 have "\<bar>m * u - x\<bar> \<le> x / 2 ^ 53" by linarith
  then show ?thesis by (simp add: fl_pos_def Let_def u_def m_def)
qed

lemma fl_err:
  assumes "0 \<le> x"
  shows "\<bar>fl x - x\<bar> \<le> x / 2 ^ 53"
proof (cases "x = 0")
  case True
  then show ?thesis by (simp add: fl_def)
next
  case False
  with assms have "0 < x" by simp
  then show ?thesis using fl_pos_err [of x] by (simp add: fl_def)
qed

lemma fl_bounds:
  assumes "0 \<le> x"
  shows "fl x - x \<le> x / 2 ^ 53" and "x - fl x \<le> x / 2 ^ 53"
  using fl_err [OF assms] unfolding abs_le_iff by linarith+

lemma fl_nonneg: "0 \<le> x \<Longrightarrow> 0 \<le> fl x"
  using fl_bounds(2) [of x] by (simp add: field_simps)

lemma fl_upper: "0 \<le> x \<Longrightarrow> fl x \<le> x * (1 + 1 / 2 ^ 53)"
  using fl_bounds(1) [of x] by (simp add: field_simps)

lemma fl_lower: "0 \<le> x \<Longrightarrow> x * (1 - 1 / 2 ^ 53) \<le> fl x"
  using fl_bounds(2) [of x] by (simp add: field_simps)

lemma expo_of_nat_nonneg:
  assumes "0 < n"
  shows "0 \<le> expo (of_nat n)"
proof -
  have "(1::rat) \<le> of_nat n" using assms by simp
  then have "expo (of_nat n) = bitlen \<lfloor>(of_nat n :: rat)\<rfloor> - 1" by (simp add: expo_def)
  moreover have "0 < bitlen \<lfloor>(of_nat n :: rat)\<rfloor>" using assms by (simp add: bitlen_alt_def)
  ultimately show ?thesis by simp
qed

lemma fl_of_nat_exact:
  assumes "n < 2 ^ 53"
  shows "fl (of_nat n) = of_nat n"
proof (cases "n = 0")
  case True
  then show ?thesis by (simp add: fl_def)
next
  case False
  then have n0: "0 < n" by simp
  define x :: rat where "x = of_nat n"
  define e where "e = expo x"
  have x0: "0 < x" using n0 by (simp add: x_def)
  have e0: "0 \<le> e" using expo_of_nat_nonneg [OF n0] by (simp add: e_def x_def)
  have "x < 2 ^ 53" using assms unfolding x_def
    by (metis of_nat_less_iff of_nat_numeral of_nat_power)
  moreover have "2 powi e \<le> x" using expo_bounds [OF x0] by (simp add: e_def)
  ultimately have lt: "(2::rat) powi e < 2 powi 53" by simp
  have e52: "e \<le> 52"
  proof (rule ccontr)
    assume "\<not> e \<le> 52"
    then have "53 \<le> e" by simp
    then have "(2::rat) powi 53 \<le> 2 powi e" by (intro power_int_increasing) simp_all
    with lt show False by simp
  qed
  define k where "k = nat (52 - e)"
  have u: "(2::rat) powi (e - 52) = 1 / 2 ^ k"
  proof -
    have "e - 52 = - int k" using e52 by (simp add: k_def)
    then have "(2::rat) powi (e - 52) = 2 powi (- int k)" by simp
    also have "\<dots> = 1 / 2 ^ k" by (simp add: power_int_minus field_simps)
    finally show ?thesis .
  qed
  have "x / (1 / 2 ^ k) = of_int (int n * 2 ^ k)" by (simp add: x_def)
  then have "round_half_even (x / (1 / 2 ^ k)) = int n * 2 ^ k"
    by (simp only: round_half_even_of_int)
  then have "fl_pos x = x"
    unfolding fl_pos_def Let_def e_def [symmetric] u by (simp add: x_def)
  with x0 show ?thesis by (simp add: fl_def x_def)
qed

lemma fl_of_nat_is_nat: "\<exists>k::nat. fl (of_nat n) = of_nat k"
proof (cases "n < 2 ^ 53")
  case True
  then show ?thesis using fl_of_nat_exact by blast
next
  case False
  define x :: rat where "x = of_nat n"
  define e where "e = expo x"
  have "(2::nat) ^ 53 \<le> n" using False by simp
  then have big: "(2::rat) ^ 53 \<le> x" unfolding x_def
    by (metis of_nat_le_iff of_nat_numeral of_nat_power)
  then have x0: "0 < x" by (simp add: order.strict_trans2)
  have "x < 2 powi (e + 1)" using expo_bounds [OF x0] by (simp add: e_def)
  with big have lt: "(2::rat) powi 53 < 2 powi (e + 1)" by simp
  have e53: "53 \<le> e"
  proof (rule ccontr)
    assume "\<not> 53 \<le> e"
    then have "e + 1 \<le> 53" by simp
    then have "(2::rat) powi (e + 1) \<le> 2 powi 53" by (intro power_int_increasing) simp_all
    with lt show False by simp
  qed
  define k where "k = nat (e - 52)"
  have u: "(2::rat) powi (e - 52) = 2 ^ k"
    using e53 by (simp add: k_def power_int_def)
  define m where "m = round_half_even (x / 2 ^ k)"
  have "0 \<le> x / 2 ^ k" using x0 by simp
  then have "0 \<le> \<lfloor>x / 2 ^ k\<rfloor>" by simp
  then have m0: "0 \<le> m" by (simp add: m_def round_half_even_def Let_def)
  have "fl_pos x = of_int m * 2 ^ k"
    unfolding fl_pos_def Let_def e_def [symmetric] u by (simp add: m_def)
  also have "\<dots> = of_nat (nat m * 2 ^ k)" using m0 by simp
  finally have "fl x = of_nat (nat m * 2 ^ k)" using x0 by (simp add: fl_def)
  then show ?thesis unfolding x_def by blast
qed

lemma js_mod_of_nat:
  assumes "0 < b"
  shows "js_mod (of_nat a) (of_nat b) = of_nat (a mod b)"
proof -
  have "\<lfloor>(of_nat a :: rat) / of_nat b\<rfloor> = int (a div b)"
    by (simp add: floor_divide_of_nat_eq)
  then have "js_mod (of_nat a) (of_nat b) = of_nat a - of_nat b * of_nat (a div b)"
    by (simp add: js_mod_def)
  also have "\<dots> = of_nat (a mod b)"
  proof -
    have "a = b * (a div b) + a mod b" by simp
    then have "(of_nat a :: rat) = of_nat (b * (a div b) + a mod b)" by simp
    then show ?thesis by (simp only: of_nat_add of_nat_mult)
  qed
  finally show ?thesis .
qed

text \<open>The rounding of a fraction of positive integers, computed on integers.\<close>

lemma round_half_even_frac:
  assumes "0 < b"
  shows "round_half_even (of_int a / of_int b) = rhe_div a b"
proof -
  have f: "\<lfloor>(of_int a :: rat) / of_int b\<rfloor> = a div b"
    by (rule floor_divide_of_int_eq)
  have "a = b * (a div b) + a mod b" by simp
  then have "(of_int a :: rat) = of_int (b * (a div b) + a mod b)" by simp
  then have "(of_int a :: rat) = of_int b * of_int (a div b) + of_int (a mod b)"
    by (simp only: of_int_add of_int_mult)
  then have d: "(of_int a :: rat) / of_int b - of_int (a div b) = of_int (a mod b) / of_int b"
    using assms by (simp add: field_simps)
  have lt: "(of_int (a mod b) / of_int b < (1::rat) / 2) = (2 * (a mod b) < b)"
  proof -
    have "(of_int (a mod b) / of_int b < (1::rat) / 2) = ((of_int (2 * (a mod b)) :: rat) < of_int b)"
      using assms by (simp add: field_simps)
    then show ?thesis by (simp only: of_int_less_iff)
  qed
  have gt: "((1::rat) / 2 < of_int (a mod b) / of_int b) = (b < 2 * (a mod b))"
  proof -
    have "((1::rat) / 2 < of_int (a mod b) / of_int b) = ((of_int b :: rat) < of_int (2 * (a mod b)))"
      using assms by (simp add: field_simps)
    then show ?thesis by (simp only: of_int_less_iff)
  qed
  show ?thesis
    unfolding round_half_even_def rhe_div_def Let_def f d lt gt ..
qed

lemma expo_of_frac:
  assumes "0 < a" and "0 < b"
  shows "expo (of_int a / of_int b) = expo_frac a b"
proof -
  have 1: "((1::rat) \<le> of_int a / of_int b) = (b \<le> a)"
    using assms by (simp add: field_simps)
  have 2: "\<lfloor>(of_int a :: rat) / of_int b\<rfloor> = a div b"
    by (rule floor_divide_of_int_eq)
  have "\<lceil>(of_int b :: rat) / of_int a\<rceil> = - ((- b) div a)"
    by (rule ceiling_divide_eq_div)
  then have 3: "\<lceil>1 / ((of_int a :: rat) / of_int b)\<rceil> = - ((- b) div a)" by simp
  show ?thesis unfolding expo_def expo_frac_def 1 2 3 ..
qed

lemma fl_of_frac:
  assumes "0 < a" and "0 < b" and "expo_frac a b \<le> 52"
  shows "fl (of_int a / of_int b)
           = of_int (rhe_div (a * 2 ^ nat (52 - expo_frac a b)) b) / 2 ^ nat (52 - expo_frac a b)"
proof -
  define x :: rat where "x = of_int a / of_int b"
  define k where "k = nat (52 - expo_frac a b)"
  have x0: "0 < x" using assms by (simp add: x_def)
  have e: "expo x = expo_frac a b" unfolding x_def by (rule expo_of_frac [OF assms(1,2)])
  have u: "(2::rat) powi (expo x - 52) = 1 / 2 ^ k"
  proof -
    have "expo x - 52 = - int k" using assms(3) by (simp add: k_def e)
    then have "(2::rat) powi (expo x - 52) = 2 powi (- int k)" by simp
    also have "\<dots> = 1 / 2 ^ k" by (simp add: power_int_minus field_simps)
    finally show ?thesis .
  qed
  have "x / (1 / 2 ^ k) = of_int (a * 2 ^ k) / of_int b" by (simp add: x_def)
  then have "round_half_even (x / (1 / 2 ^ k)) = rhe_div (a * 2 ^ k) b"
    using round_half_even_frac [OF assms(2), of "a * 2 ^ k"] by simp
  then have "fl_pos x = of_int (rhe_div (a * 2 ^ k) b) / 2 ^ k"
    unfolding fl_pos_def Let_def u by simp
  moreover have "fl x = fl_pos x" using x0 by (simp add: fl_def)
  ultimately show ?thesis unfolding x_def k_def by simp
qed

lemma draw_ok_sound:
  assumes "0 < k" and "k < n" and "draw_ok n k"
  shows "of_int k \<le> fl (fl (of_int k / of_int n) * of_int n)"
proof -
  define t1 where "t1 = nat (52 - expo_frac k n)"
  define m1 where "m1 = rhe_div (k * 2 ^ t1) n"
  define a where "a = m1 * n"
  define b :: int where "b = 2 ^ t1"
  define t2 where "t2 = nat (52 - expo_frac a b)"
  define m2 where "m2 = rhe_div (a * 2 ^ t2) b"
  from assms(3) have ok: "0 < m1" "expo_frac a b \<le> 52" "k * 2 ^ t2 \<le> m2"
    by (simp_all add: draw_ok_def Let_def t1_def m1_def a_def b_def t2_def m2_def)
  have n0: "0 < n" using assms by simp
  have "expo_frac k n \<le> 0" using assms by (simp add: expo_frac_def bitlen_nonneg)
  then have "expo_frac k n \<le> 52" by simp
  from fl_of_frac [OF assms(1) n0 this]
  have g: "fl (of_int k / of_int n) = of_int m1 / 2 ^ t1" by (simp add: m1_def t1_def)
  have a0: "0 < a" using ok(1) n0 by (simp add: a_def)
  have b0: "0 < b" by (simp add: b_def)
  have "fl (of_int k / of_int n) * of_int n = of_int a / of_int b"
    by (simp add: g a_def b_def)
  moreover from fl_of_frac [OF a0 b0 ok(2)]
  have "fl (of_int a / of_int b) = of_int m2 / 2 ^ t2" by (simp add: m2_def t2_def)
  moreover have "(of_int k :: rat) \<le> of_int m2 / 2 ^ t2"
  proof -
    have "(of_int (k * 2 ^ t2) :: rat) \<le> of_int m2" using ok(3) by (simp only: of_int_le_iff)
    then show ?thesis by (simp add: field_simps)
  qed
  ultimately show ?thesis by simp
qed

subsection \<open>The exam window\<close>

text \<open>
  C1, as the code has it: with start instant \<open>T\<close>, \<open>isTestAvailable\<close> is true exactly for
  the instants of the closed interval from \<open>T\<close> to \<open>T\<close> + 30 minutes, both ends included;
  it is false before \<open>T\<close> and false after \<open>T\<close> + 30 minutes.
\<close>

theorem isTestAvailable_closed_window:
  "isTestAvailable tz now =
     (testStartTime (getTestSettings tz) \<le> now
      \<and> now \<le> testStartTime (getTestSettings tz) + 30 * 60 * 1000)"
  by (simp add: isTestAvailable_def Let_def)

text \<open>
  C1 as stated asks for false at \<open>T\<close> + 30 minutes: on a host in UTC that instant is
  1756555560000, it is not before the end of the half-open window, and the exam is
  available there.
\<close>

theorem isTestAvailable_end_instant_counterexample:
  "isTestAvailable 0 1756555560000
   \<and> \<not> (1756555560000 < testStartTime (getTestSettings 0) + 30 * 60 * 1000)"
  by (simp add: isTestAvailable_def getTestSettings_def Let_def)

subsection \<open>The shuffle\<close>

text \<open>
  One turn of the loop, and the generator on a natural number: the new state is a natural
  number below 233280 whatever the seed, and it is the state of the reference recurrence
  when \<open>state * 9301 + 49297\<close> is below \<open>2^53\<close>.
\<close>

lemma shuffle_loop_stop: "i \<le> 0 \<Longrightarrow> shuffle_loop i r xs = xs"
  by (simp add: shuffle_loop.simps)

lemma shuffle_loop_step:
  "shuffle_loop (int (Suc i)) r xs =
     shuffle_loop (int i) (snd (seededRandom r))
       (swap xs (int (Suc i)) \<lfloor>js_mul (fst (seededRandom r)) (of_int (int (Suc i) + 1))\<rfloor>)"
  by (subst shuffle_loop.simps) simp

lemma seededRandom_of_nat:
  "\<exists>s'<233280. seededRandom (of_nat s) = (js_div (of_nat s') 233280, of_nat s')"
proof -
  obtain k1 where k1: "fl (of_nat (s * 9301)) = (of_nat k1 :: rat)"
    using fl_of_nat_is_nat by blast
  obtain k2 where k2: "fl (of_nat (k1 + 49297)) = (of_nat k2 :: rat)"
    using fl_of_nat_is_nat by blast
  have "js_mul (of_nat s) 9301 = of_nat k1" using k1 by (simp add: js_mul_def)
  then have "js_add (js_mul (of_nat s) 9301) 49297 = of_nat k2"
    using k2 by (simp add: js_add_def)
  then have "js_mod (js_add (js_mul (of_nat s) 9301) 49297) 233280 = of_nat (k2 mod 233280)"
    using js_mod_of_nat [of 233280 k2] by simp
  then have "seededRandom (of_nat s)
      = (js_div (of_nat (k2 mod 233280)) 233280, of_nat (k2 mod 233280))"
    by (simp add: seededRandom_def Let_def)
  moreover have "k2 mod 233280 < 233280" by simp
  ultimately show ?thesis by blast
qed

lemma seededRandom_exact:
  assumes "s * 9301 + 49297 < 2 ^ 53"
  shows "seededRandom (of_nat s) = (js_div (of_nat (ref_next s)) 233280, of_nat (ref_next s))"
proof -
  have "s * 9301 < 2 ^ 53" using assms by simp
  then have "fl (of_nat (s * 9301)) = (of_nat (s * 9301) :: rat)" by (rule fl_of_nat_exact)
  then have 1: "js_mul (of_nat s) 9301 = of_nat (s * 9301)" by (simp add: js_mul_def)
  have "fl (of_nat (s * 9301 + 49297)) = (of_nat (s * 9301 + 49297) :: rat)"
    using assms by (rule fl_of_nat_exact)
  then have 2: "js_add (of_nat (s * 9301)) 49297 = of_nat (s * 9301 + 49297)"
    by (simp add: js_add_def)
  have 3: "js_mod (of_nat (s * 9301 + 49297)) 233280 = of_nat (ref_next s)"
    using js_mod_of_nat [of 233280 "s * 9301 + 49297"] by (simp add: ref_next_def)
  show ?thesis by (simp only: seededRandom_def Let_def 1 2 3)
qed

text \<open>
  The check of \<open>draw_ok\<close> succeeds on every \<open>k / n\<close> with \<open>n\<close> up to 44 that the generator
  can return.
\<close>

lemma relevant_draws_ok: "list_all (\<lambda>n. list_all (draw_ok n) (relevant n)) [2..44]"
  by code_simp

lemma draw_ok_all:
  assumes "2 \<le> n" and "n \<le> 44" and "0 < k" and "k < n" and "(233280 * k) mod n = 0"
  shows "draw_ok n k"
proof -
  from relevant_draws_ok have "\<forall>n\<in>set [2..44]. \<forall>k\<in>set (relevant n). draw_ok n k"
    by (simp only: list_all_iff)
  moreover have "n \<in> set [2..44]" using assms(1,2) by (simp only: set_upto atLeastAtMost_iff)
  moreover have "k \<in> set (relevant n)" using assms by (simp add: relevant_def)
  ultimately show ?thesis by blast
qed

text \<open>
  The index drawn for a slice of \<open>n\<close> elements lies in the slice; and for \<open>n\<close> up to 44
  it is the floor of the exact product.
\<close>

lemma draw_in_range:
  assumes "s < 233280" and "0 < n"
  shows "0 \<le> \<lfloor>js_mul (js_div (of_nat s) 233280) (of_int n)\<rfloor>"
    and "\<lfloor>js_mul (js_div (of_nat s) 233280) (of_int n)\<rfloor> < n"
proof -
  define x :: rat where "x = of_nat s / 233280"
  define g where "g = fl x"
  define y where "y = g * of_int n"
  define p where "p = fl y"
  have p: "js_mul (js_div (of_nat s) 233280) (of_int n) = p"
    by (simp add: js_mul_def js_div_def p_def y_def g_def x_def)
  have x0: "0 \<le> x" by (simp add: x_def)
  have "s \<le> 233279" using assms(1) by simp
  then have "(of_nat s :: rat) \<le> of_nat 233279" by (simp only: of_nat_le_iff)
  then have x1: "x \<le> 233279 / 233280" by (simp add: x_def)
  have g0: "0 \<le> g" unfolding g_def using x0 by (rule fl_nonneg)
  have "g \<le> x * (1 + 1 / 2 ^ 53)" unfolding g_def using x0 by (rule fl_upper)
  also have "\<dots> \<le> 233279 / 233280 * (1 + 1 / 2 ^ 53)"
    using x1 by (intro mult_right_mono) simp_all
  finally have g1: "g \<le> 233279 / 233280 * (1 + 1 / 2 ^ 53)" .
  have n0: "(0::rat) < of_int n" using assms(2) by simp
  have y0: "0 \<le> y" using g0 n0 by (simp add: y_def)
  have y1: "y \<le> 233279 / 233280 * (1 + 1 / 2 ^ 53) * of_int n"
    unfolding y_def using g1 n0 by (intro mult_right_mono) simp_all
  have p0: "0 \<le> p" unfolding p_def using y0 by (rule fl_nonneg)
  have "p \<le> y * (1 + 1 / 2 ^ 53)" unfolding p_def using y0 by (rule fl_upper)
  also have "\<dots> \<le> 233279 / 233280 * (1 + 1 / 2 ^ 53) * of_int n * (1 + 1 / 2 ^ 53)"
    using y1 by (intro mult_right_mono) simp_all
  also have "\<dots> = (233279 / 233280 * (1 + 1 / 2 ^ 53) * (1 + 1 / 2 ^ 53)) * of_int n"
    by simp
  also have "\<dots> < 1 * of_int n"
    using n0 by (intro mult_strict_right_mono) simp_all
  finally have p1: "p < of_int n" by simp
  show "0 \<le> \<lfloor>js_mul (js_div (of_nat s) 233280) (of_int n)\<rfloor>"
    using p0 by (simp add: p)
  show "\<lfloor>js_mul (js_div (of_nat s) 233280) (of_int n)\<rfloor> < n"
    using p1 by (simp add: p floor_less_iff)
qed

lemma draw_exact:
  assumes "s < 233280" and "0 < n" and "n \<le> 44"
  shows "\<lfloor>js_mul (js_div (of_nat s) 233280) (of_int n)\<rfloor>
           = \<lfloor>(of_nat s / 233280 :: rat) * of_int n\<rfloor>"
proof -
  define x :: rat where "x = of_nat s / 233280"
  define g where "g = fl x"
  define y where "y = g * of_int n"
  define p where "p = fl y"
  define v where "v = x * of_int n"
  define q where "q = (int s * n) div 233280"
  define r where "r = (int s * n) mod 233280"
  define d :: rat where "d = 1 / 2 ^ 53"
  have p: "js_mul (js_div (of_nat s) 233280) (of_int n) = p"
    by (simp add: js_mul_def js_div_def p_def y_def g_def x_def)
  have x0: "0 \<le> x" by (simp add: x_def)
  have n0: "(0::rat) < of_int n" using assms(2) by simp
  have n44: "(of_int n :: rat) \<le> 44" using assms(3) by simp
  have "(of_nat s :: rat) \<le> of_nat 233280" using assms(1) by (simp only: of_nat_le_iff)
  then have x1: "x \<le> 1" by (simp add: x_def)
  have v0: "0 \<le> v" using x0 n0 by (simp add: v_def)
  have "v \<le> 1 * of_int n" unfolding v_def using x1 n0 by (intro mult_right_mono) simp_all
  then have v44: "v \<le> 44" using n44 by simp
  have g0: "0 \<le> g" unfolding g_def using x0 by (rule fl_nonneg)
  have gx: "g - x \<le> x * d" "x - g \<le> x * d"
    using fl_bounds [OF x0] by (simp_all add: g_def d_def)
  have y0: "0 \<le> y" using g0 n0 by (simp add: y_def)
  have "(g - x) * of_int n \<le> x * d * of_int n" "(x - g) * of_int n \<le> x * d * of_int n"
    using gx n0 by (simp_all only: mult_le_cancel_right_pos)
  then have yv: "y - v \<le> v * d" "v - y \<le> v * d"
    by (simp_all add: y_def v_def algebra_simps)
  have py: "p - y \<le> y * d" "y - p \<le> y * d"
    using fl_bounds [OF y0] by (simp_all add: p_def d_def)
  have d0: "0 \<le> d" by (simp add: d_def)
  have "y \<le> v + v * d" using yv by linarith
  then have "y * d \<le> (v + v * d) * d" using d0 by (rule mult_right_mono)
  with py have "p - y \<le> (v + v * d) * d" "y - p \<le> (v + v * d) * d" by linarith+
  with yv have pv: "p - v \<le> v * (2 * d + d * d)" "v - p \<le> v * (2 * d + d * d)"
    by (simp_all add: algebra_simps)
  have "v * (2 * d + d * d) \<le> 44 * (2 * d + d * d)"
    using v44 d0 by (intro mult_right_mono) simp_all
  also have "\<dots> < 1 / 233280" by (simp add: d_def)
  finally have eta: "v * (2 * d + d * d) < 1 / 233280" .
  have sn: "int s * n = 233280 * q + r" by (simp add: q_def r_def)
  have r0: "0 \<le> r" and r1: "r < 233280" by (simp_all add: r_def)
  have "(of_int (int s * n) :: rat) = of_int (233280 * q + r)" by (simp only: sn)
  then have "(of_nat s :: rat) * of_int n = 233280 * of_int q + of_int r" by simp
  then have vq: "v = of_int q + of_int r / 233280" by (simp add: v_def x_def field_simps)
  have p0: "0 \<le> p" unfolding p_def using y0 by (rule fl_nonneg)
  have fv: "\<lfloor>v\<rfloor> = q"
  proof (rule floor_unique)
    show "of_int q \<le> v" using r0 by (simp add: vq)
    have "(of_int r :: rat) < 233280" using r1 by simp
    then show "v < of_int q + 1" by (simp add: vq)
  qed
  have fp: "\<lfloor>p\<rfloor> = q"
  proof (cases "r = 0")
    case False
    with r0 have "1 \<le> r" by simp
    then have "(1::rat) \<le> of_int r" by simp
    then have lo: "of_int q + 1 / 233280 \<le> v" by (simp add: vq)
    have "r \<le> 233279" using r1 by simp
    then have "(of_int r :: rat) \<le> 233279" by simp
    then have hi: "v \<le> of_int q + 233279 / 233280" by (simp add: vq)
    show ?thesis
    proof (rule floor_unique)
      show "of_int q \<le> p" using lo pv(2) eta by linarith
      show "p < of_int q + 1" using hi pv(1) eta by linarith
    qed
  next
    case True
    then have vq': "v = of_int q" by (simp add: vq)
    have up: "p < of_int q + 1" using vq' pv(1) eta by linarith
    have "of_int q \<le> p"
    proof (cases "q = 0")
      case True
      then show ?thesis using p0 by simp
    next
      case False
      have "0 \<le> q" using assms(2) by (simp add: q_def pos_imp_zdiv_nonneg_iff)
      with False have q0: "0 < q" by simp
      have sq: "int s * n = 233280 * q" using sn True by simp
      have "int s * n < 233280 * n" using assms(1,2) by simp
      with sq have qn: "q < n" by simp
      with q0 have n2: "2 \<le> n" by simp
      have "(233280 * q) mod n = 0" using sq [symmetric] by simp
      from draw_ok_all [OF n2 assms(3) q0 qn this] have "draw_ok n q" .
      from draw_ok_sound [OF q0 qn this]
      have "of_int q \<le> fl (fl (of_int q / of_int n) * of_int n)" .
      moreover have "x = of_int q / of_int n"
      proof -
        have "(of_int (int s * n) :: rat) = of_int (233280 * q)" by (simp only: sq)
        then have "(of_nat s :: rat) * of_int n = 233280 * of_int q" by simp
        then show ?thesis using n0 by (simp add: x_def field_simps)
      qed
      ultimately show ?thesis by (simp add: p_def y_def g_def)
    qed
    with up show ?thesis by (intro floor_unique)
  qed
  show ?thesis using fp fv by (simp add: p v_def x_def)
qed

lemma length_swap [simp]: "length (swap xs i j) = length xs"
  by (simp add: swap_def)

lemma mset_swap_in_range:
  assumes "0 \<le> i" and "i < int (length xs)" and "0 \<le> j" and "j < int (length xs)"
  shows "mset (swap xs i j) = mset xs"
proof -
  have "nat i < length xs" "nat j < length xs" using assms by simp_all
  then show ?thesis unfolding swap_def using mset_swap [of "nat j" xs "nat i"] by simp
qed

lemma shuffle_loop_mset:
  "i < length xs \<Longrightarrow> mset (shuffle_loop (int i) (of_nat s) xs) = mset xs"
proof (induction i arbitrary: s xs)
  case 0
  then show ?case by (simp add: shuffle_loop_stop)
next
  case (Suc i)
  obtain s' where s': "s' < 233280"
    and r: "seededRandom (of_nat s) = (js_div (of_nat s') 233280, of_nat s')"
    using seededRandom_of_nat by blast
  define j where "j = \<lfloor>js_mul (js_div (of_nat s') 233280) (of_int (int (Suc i) + 1))\<rfloor>"
  have j: "0 \<le> j" "j < int (Suc i) + 1"
    using draw_in_range [OF s', of "int (Suc i) + 1"] by (simp_all add: j_def)
  have step: "shuffle_loop (int (Suc i)) (of_nat s) xs
      = shuffle_loop (int i) (of_nat s') (swap xs (int (Suc i)) j)"
    by (simp only: shuffle_loop_step r fst_conv snd_conv j_def)
  have "mset (swap xs (int (Suc i)) j) = mset xs"
    using Suc.prems j by (intro mset_swap_in_range) simp_all
  moreover have "i < length (swap xs (int (Suc i)) j)" using Suc.prems by simp
  ultimately show ?case using Suc.IH [of "swap xs (int (Suc i)) j" s'] by (simp only: step)
qed

text \<open>
  C4: for every question list and every participant id the output of \<open>shuffleQuestions\<close>
  is a permutation of the input: it has the same multiset of elements, so nothing is added,
  removed or duplicated, and the same length; the empty list gives the empty list.
\<close>

theorem shuffleQuestions_permutation:
  "mset (shuffleQuestions questions uid) = mset questions
   \<and> length (shuffleQuestions questions uid) = length questions
   \<and> shuffleQuestions [] uid = []"
proof -
  have m: "mset (shuffleQuestions qs uid) = mset qs" for qs :: "'a list"
  proof (cases qs)
    case Nil
    then show ?thesis by (simp add: shuffleQuestions_def shuffle_loop_stop)
  next
    case (Cons a as)
    then have "int (length qs) - 1 = int (length qs - 1)" by simp
    moreover have "length qs - 1 < length qs" using Cons by simp
    ultimately show ?thesis
      using shuffle_loop_mset [of "length qs - 1" qs]
      by (simp only: shuffleQuestions_def Let_def)
  qed
  have "length (shuffleQuestions questions uid) = length questions"
    using m [of questions] by (rule mset_eq_length)
  moreover have "shuffleQuestions [] uid = []"
    by (simp add: shuffleQuestions_def shuffle_loop_stop)
  ultimately show ?thesis using m by simp
qed

lemma foldl_add_sum: "foldl (\<lambda>acc char. acc + unat char) a uid = a + ref_seed uid"
  for uid :: jsstring
  by (induction uid arbitrary: a) (simp_all add: ref_seed_def)

text \<open>
  C10: \<open>shuffleQuestions\<close> depends on the participant id through the sum of its character
  codes only: two ids with the same sum, such as two anagrams, give the same ordering of
  every question list.
\<close>

theorem shuffleQuestions_seed_only:
  "ref_seed userId1 = ref_seed userId2 \<Longrightarrow>
     shuffleQuestions questions userId1 = shuffleQuestions questions userId2"
  by (simp add: shuffleQuestions_def foldl_add_sum)

theorem shuffleQuestions_seed_only_witness:
  "[0x61, 0x62] \<noteq> [0x62, 0x61 :: 16 word]
   \<and> ref_seed [0x61, 0x62] = ref_seed [0x62, 0x61]
   \<and> shuffleQuestions [1, 2, 3, 4, 5 :: nat] [0x61, 0x62]
       = shuffleQuestions [1, 2, 3, 4, 5] [0x62, 0x61]"
proof -
  have h: "ref_seed [0x61, 0x62] = ref_seed [0x62, 0x61]" by (simp add: ref_seed_def)
  from shuffleQuestions_seed_only [OF h, of "[1, 2, 3, 4, 5 :: nat]"] h show ?thesis by simp
qed

lemma shuffle_loop_ref:
  "i \<le> 43 \<Longrightarrow> s * 9301 + 49297 < 2 ^ 53 \<Longrightarrow>
     shuffle_loop (int i) (of_nat s) xs = ref_fisher_yates i s xs"
proof (induction i arbitrary: s xs)
  case 0
  then show ?case by (simp add: shuffle_loop_stop)
next
  case (Suc i)
  define s' where "s' = ref_next s"
  have s': "s' < 233280" by (simp add: s'_def ref_next_def)
  then have nxt: "s' * 9301 + 49297 < 2 ^ 53" by simp
  have r: "seededRandom (of_nat s) = (js_div (of_nat s') 233280, of_nat s')"
    unfolding s'_def using Suc.prems(2) by (rule seededRandom_exact)
  have "\<lfloor>js_mul (js_div (of_nat s') 233280) (of_int (int (Suc i) + 1))\<rfloor>
      = \<lfloor>(of_nat s' / 233280 :: rat) * of_int (int (Suc i) + 1)\<rfloor>"
    using Suc.prems(1) by (intro draw_exact [OF s']) simp_all
  then have j: "\<lfloor>js_mul (js_div (of_nat s') 233280) (of_int (int (Suc i) + 1))\<rfloor>
      = \<lfloor>(of_nat s' / 233280 :: rat) * of_nat (Suc i + 1)\<rfloor>"
    by simp
  have "shuffle_loop (int (Suc i)) (of_nat s) xs
      = shuffle_loop (int i) (of_nat s')
          (swap xs (int (Suc i)) \<lfloor>(of_nat s' / 233280 :: rat) * of_nat (Suc i + 1)\<rfloor>)"
    by (simp only: shuffle_loop_step r fst_conv snd_conv j)
  also have "\<dots> = ref_fisher_yates i s'
          (swap xs (int (Suc i)) \<lfloor>(of_nat s' / 233280 :: rat) * of_nat (Suc i + 1)\<rfloor>)"
    using Suc.prems(1) nxt by (intro Suc.IH) simp_all
  also have "\<dots> = ref_fisher_yates (Suc i) s xs"
    by (simp add: swap_def Let_def s'_def del: of_nat_Suc)
  finally show ?case .
qed

text \<open>
  C3, as the code has it: for every question list of at most 44 elements, and every
  participant id whose character codes sum to less than \<open>2^39\<close>, the output of
  \<open>shuffleQuestions\<close> is, element for element, the output of the reference algorithm
  computed in exact arithmetic.
\<close>

theorem shuffleQuestions_refines_reference:
  assumes "length questions \<le> 44" and "ref_seed uid < 2 ^ 39"
  shows "shuffleQuestions questions uid = ref_shuffle questions uid"
proof (cases questions)
  case Nil
  then show ?thesis by (simp add: shuffleQuestions_def ref_shuffle_def shuffle_loop_stop)
next
  case (Cons a as)
  then have i: "int (length questions) - 1 = int (length questions - 1)" by simp
  have "ref_seed uid * 9301 + 49297 < 2 ^ 39 * 9301 + 49297"
    using assms(2) by simp
  also have "\<dots> < (2::nat) ^ 53" by simp
  finally have "ref_seed uid * 9301 + 49297 < 2 ^ 53" .
  moreover have "length questions - 1 \<le> 43" using assms(1) by simp
  ultimately have "shuffle_loop (int (length questions - 1)) (of_nat (ref_seed uid)) questions
      = ref_fisher_yates (length questions - 1) (ref_seed uid) questions"
    by (rule shuffle_loop_ref [rotated])
  then show ?thesis
    using foldl_add_sum [of 0 uid]
    by (simp add: shuffleQuestions_def ref_shuffle_def Let_def i del: of_nat_diff)
qed

lemma floor_numeral_div: "\<lfloor>(numeral a :: rat) / numeral b\<rfloor> = numeral a div numeral b"
  using floor_divide_of_int_eq [of "numeral a" "numeral b", where ?'a = rat] by simp

theorem shuffleQuestions_refines_reference_witness:
  "length [1, 2, 3, 4, 5 :: nat] \<le> 44 \<and> ref_seed p1 < 2 ^ 39
   \<and> ref_shuffle [1, 2, 3, 4, 5 :: nat] p1 = [3, 1, 5, 2, 4]
   \<and> shuffleQuestions [1, 2, 3, 4, 5 :: nat] p1 = [3, 1, 5, 2, 4]"
proof -
  have h: "length [1, 2, 3, 4, 5 :: nat] \<le> 44" "ref_seed p1 < 2 ^ 39"
    by (simp_all add: ref_seed_def p1_def)
  have "ref_seed p1 = 161" by (simp add: ref_seed_def p1_def)
  then have "ref_shuffle [1, 2, 3, 4, 5 :: nat] p1
      = ref_fisher_yates (Suc (Suc (Suc (Suc 0)))) 161 [1, 2, 3, 4, 5]"
    by (simp add: ref_shuffle_def)
  also have "\<dots> = [3, 1, 5, 2, 4]"
    by (simp add: ref_next_def Let_def floor_numeral_div)
  finally have r: "ref_shuffle [1, 2, 3, 4, 5 :: nat] p1 = [3, 1, 5, 2, 4]" .
  from shuffleQuestions_refines_reference [OF h] h r show ?thesis by simp
qed

lemma swap_swap:
  assumes "nat i < length xs" and "nat j < length xs"
  shows "swap (swap xs i j) i j = xs"
  using assms by (auto simp add: swap_def list_eq_iff_nth_eq nth_list_update)

lemma swap_inj:
  assumes "nat i < length xs" and "nat j < length xs" and "length ys = length xs"
    and "swap xs i j = swap ys i j"
  shows "xs = ys"
proof -
  have "xs = swap (swap xs i j) i j" using assms(1,2) by (simp add: swap_swap)
  also have "\<dots> = swap (swap ys i j) i j" by (simp only: assms(4))
  also have "\<dots> = ys" using assms(1,2,3) by (simp add: swap_swap)
  finally show ?thesis .
qed

lemma shuffle_loop_inj:
  "i < length xs \<Longrightarrow> length ys = length xs \<Longrightarrow>
     shuffle_loop (int i) (of_nat s) xs = shuffle_loop (int i) (of_nat s) ys \<Longrightarrow> xs = ys"
proof (induction i arbitrary: s xs ys)
  case 0
  then show ?case by (simp add: shuffle_loop_stop)
next
  case (Suc i)
  obtain s' where s': "s' < 233280"
    and r: "seededRandom (of_nat s) = (js_div (of_nat s') 233280, of_nat s')"
    using seededRandom_of_nat by blast
  define j where "j = \<lfloor>js_mul (js_div (of_nat s') 233280) (of_int (int (Suc i) + 1))\<rfloor>"
  have j: "0 \<le> j" "j < int (Suc i) + 1"
    using draw_in_range [OF s', of "int (Suc i) + 1"] by (simp_all add: j_def)
  have step: "shuffle_loop (int (Suc i)) (of_nat s) zs
      = shuffle_loop (int i) (of_nat s') (swap zs (int (Suc i)) j)" for zs :: "'a list"
    by (simp only: shuffle_loop_step r fst_conv snd_conv j_def)
  from Suc.prems(3) have "shuffle_loop (int i) (of_nat s') (swap xs (int (Suc i)) j)
      = shuffle_loop (int i) (of_nat s') (swap ys (int (Suc i)) j)"
    by (simp only: step)
  moreover have "i < length (swap xs (int (Suc i)) j)" using Suc.prems(1) by simp
  moreover have "length (swap ys (int (Suc i)) j) = length (swap xs (int (Suc i)) j)"
    using Suc.prems(2) by simp
  ultimately have "swap xs (int (Suc i)) j = swap ys (int (Suc i)) j"
    by (rule Suc.IH [rotated 2])
  moreover have "nat (int (Suc i)) < length xs" using Suc.prems(1) by simp
  moreover have "nat j < length xs" using Suc.prems(1) j by simp
  ultimately show ?case using Suc.prems(2) by (intro swap_inj [of "int (Suc i)" xs j ys])
qed

lemma first_draw_45: "\<lfloor>js_mul (js_div 67392 233280) 45\<rfloor> = 12"
  by code_simp

text \<open>
  C3 as stated covers every list. On 45 questions and the id of the three code units
  \<open>0xFFFF\<close>, \<open>0xFFFF\<close>, \<open>0x8F75\<close> (sum 167795) the first state is 67392, and
  \<open>67392 / 233280 * 45\<close> is exactly 13: the reference swaps the last element with the one at
  13. In binary64 the quotient is rounded down and the product is just below 13: the code
  draws 12. The two outputs differ.
\<close>

theorem shuffleQuestions_differs_on_45_questions:
  "ref_seed [0xFFFF, 0xFFFF, 0x8F75] = 167795
   \<and> ref_next 167795 = 67392
   \<and> \<lfloor>js_mul (js_div 67392 233280) 45\<rfloor> = 12
   \<and> \<lfloor>(67392 / 233280 :: rat) * 45\<rfloor> = 13
   \<and> shuffleQuestions [0..<45] [0xFFFF, 0xFFFF, 0x8F75]
       \<noteq> ref_shuffle [0..<45] [0xFFFF, 0xFFFF, 0x8F75]"
proof -
  define qs :: "nat list" where "qs = [0..<45]"
  define uid :: jsstring where "uid = [0xFFFF, 0xFFFF, 0x8F75]"
  have len: "length qs = 45" by (simp add: qs_def)
  have seed: "ref_seed uid = 167795" by (simp add: ref_seed_def uid_def)
  have nxt: "ref_next 167795 = 67392" by (simp add: ref_next_def)
  have r: "seededRandom (of_nat 167795) = (js_div (of_nat 67392) 233280, of_nat 67392)"
    using seededRandom_exact [of 167795] by (simp add: nxt)
  have d: "\<lfloor>js_mul (js_div (of_nat 67392) 233280) (of_int (int (Suc 43) + 1))\<rfloor> = 12"
    using first_draw_45 by simp
  have "shuffleQuestions qs uid = shuffle_loop (int (Suc 43)) (of_nat 167795) qs"
    using foldl_add_sum [of 0 uid] by (simp add: shuffleQuestions_def len seed)
  also have "\<dots> = shuffle_loop (int 43) (of_nat 67392) (swap qs (int (Suc 43)) 12)"
    by (simp only: shuffle_loop_step r fst_conv snd_conv d)
  finally have code: "shuffleQuestions qs uid
      = shuffle_loop (int 43) (of_nat 67392) (swap qs 44 12)" by simp
  have f: "nat \<lfloor>(of_nat 67392 / 233280 :: rat) * of_nat (Suc 43 + 1)\<rfloor> = 13"
    by simp
  have "ref_shuffle qs uid = ref_fisher_yates (Suc 43) 167795 qs"
    by (simp add: ref_shuffle_def len seed)
  also have "\<dots> = ref_fisher_yates 43 67392 (qs[Suc 43 := qs ! 13, 13 := qs ! Suc 43])"
    by (simp only: ref_fisher_yates.simps Let_def nxt f)
  also have "\<dots> = ref_fisher_yates 43 67392 (swap qs 44 13)"
    by (simp add: swap_def)
  also have "\<dots> = shuffle_loop (int 43) (of_nat 67392) (swap qs 44 13)"
    by (rule shuffle_loop_ref [symmetric]) simp_all
  finally have ref: "ref_shuffle qs uid
      = shuffle_loop (int 43) (of_nat 67392) (swap qs 44 13)" .
  have "swap qs 44 12 ! 12 = 44" "swap qs 44 13 ! 12 = 12"
    by (simp_all add: swap_def qs_def)
  then have ne: "swap qs 44 12 \<noteq> swap qs 44 13" by auto
  have "shuffleQuestions qs uid \<noteq> ref_shuffle qs uid"
  proof
    assume "shuffleQuestions qs uid = ref_shuffle qs uid"
    then have "shuffle_loop (int 43) (of_nat 67392) (swap qs 44 12)
        = shuffle_loop (int 43) (of_nat 67392) (swap qs 44 13)"
      by (simp only: code ref)
    moreover have "43 < length (swap qs 44 12)" by (simp add: len)
    moreover have "length (swap qs 44 13) = length (swap qs 44 12)" by simp
    ultimately have "swap qs 44 12 = swap qs 44 13" by (rule shuffle_loop_inj [rotated 2])
    with ne show False by simp
  qed
  then show ?thesis using first_draw_45 seed nxt by (simp add: qs_def uid_def)
qed

subsection \<open>Scoring\<close>

text \<open>
  C2: on the empty answer list the code divides zero by zero, and the percentage it returns
  is \<open>NaN\<close>, not 0.
\<close>

theorem calculateScore_empty_NaN:
  "calculateScore [] = \<lparr>score = 0, percentage = NaN\<rparr>"
  by (simp add: calculateScore_def)

lemma percentage_23_of_40: "\<lfloor>fl (fl (23 / 40) * 100) + 1 / 2\<rfloor> = 57"
  by code_simp

lemma percentage_2_of_3: "\<lfloor>fl (fl (2 / 3) * 100) + 1 / 2\<rfloor> = 67"
  by code_simp

text \<open>
  C5: the score is the number of answers marked correct on every list, and on three answers
  marked true, false, true the code returns score 2 and percentage 67. The percentage is
  not the rounded value of \<open>score / total * 100\<close> on every list: on 40 answers of which
  23 are correct the exact percentage is 57.5, which rounds to 58, and the code returns 57,
  because the binary64 quotient \<open>23 / 40\<close> is rounded down and its product with 100 falls
  just below 57.5.
\<close>

theorem calculateScore_tie_23_of_40:
  "calculateScore (replicate 23 (answer_marked True) @ replicate 17 (answer_marked False))
     = \<lparr>score = 23, percentage = Fin 57\<rparr>
   \<and> \<lfloor>(23 / 40 :: rat) * 100 + 1 / 2\<rfloor> = 58
   \<and> calculateScore [answer_marked True, answer_marked False, answer_marked True]
       = \<lparr>score = 2, percentage = Fin 67\<rparr>
   \<and> score (calculateScore answers) = length (filter isCorrect answers)"
  using percentage_23_of_40 percentage_2_of_3
  by (simp add: calculateScore_def answer_marked_def js_div_def js_mul_def Let_def)

text \<open>
  Off the ties the code is right: on every non-empty list of fewer than \<open>2^32\<close> answers
  (the bound on the length of an array) for which \<open>score / total * 100\<close> is not half-way
  between two integers, the percentage is the exact quotient rounded to the nearest integer.
\<close>

lemma calculateScore_off_ties:
  fixes answers :: "TestAnswer list"
  defines "c \<equiv> length (filter isCorrect answers)" and "t \<equiv> length answers"
  assumes "answers \<noteq> []" and "t < 2 ^ 32" and "(200 * c + t) mod (2 * t) \<noteq> 0"
  shows "calculateScore answers
           = \<lparr>score = c, percentage = Fin (of_int \<lfloor>(of_nat c / of_nat t :: rat) * 100 + 1 / 2\<rfloor>)\<rparr>"
proof -
  define x :: rat where "x = of_nat c / of_nat t"
  define g where "g = fl x"
  define y where "y = g * 100"
  define p where "p = fl y"
  define v where "v = x * 100"
  define q where "q = (200 * int c + int t) div (2 * int t)"
  define r where "r = (200 * int c + int t) mod (2 * int t)"
  define d :: rat where "d = 1 / 2 ^ 53"
  define e :: rat where "e = 1 / 2 ^ 33"
  define h :: rat where "h = 1 / (2 * of_nat t)"
  have t0: "0 < t" using assms(3) by (simp add: t_def)
  have ct: "c \<le> t" by (simp add: c_def t_def)
  have T0: "(0::rat) < of_nat t" using t0 by simp
  have x0: "0 \<le> x" by (simp add: x_def)
  have "(of_nat c :: rat) \<le> of_nat t" using ct by (simp only: of_nat_le_iff)
  then have x1: "x \<le> 1" using T0 by (simp add: x_def field_simps)
  have v0: "0 \<le> v" using x0 by (simp add: v_def)
  have v100: "v \<le> 100" using x1 by (simp add: v_def)
  have g0: "0 \<le> g" unfolding g_def using x0 by (rule fl_nonneg)
  have gx: "g - x \<le> x * d" "x - g \<le> x * d"
    using fl_bounds [OF x0] by (simp_all add: g_def d_def)
  have y0: "0 \<le> y" using g0 by (simp add: y_def)
  have yv: "y - v \<le> v * d" "v - y \<le> v * d"
    using gx by (simp_all add: y_def v_def algebra_simps)
  have py: "p - y \<le> y * d" "y - p \<le> y * d"
    using fl_bounds [OF y0] by (simp_all add: p_def d_def)
  have d0: "0 \<le> d" by (simp add: d_def)
  have "y \<le> v + v * d" using yv by linarith
  then have "y * d \<le> (v + v * d) * d" using d0 by (rule mult_right_mono)
  with py have "p - y \<le> (v + v * d) * d" "y - p \<le> (v + v * d) * d" by linarith+
  with yv have pv: "p - v \<le> v * (2 * d + d * d)" "v - p \<le> v * (2 * d + d * d)"
    by (simp_all add: algebra_simps)
  have "v * (2 * d + d * d) \<le> 100 * (2 * d + d * d)"
    using v100 d0 by (intro mult_right_mono) simp_all
  also have "\<dots> < e" by (simp add: d_def e_def)
  finally have eta: "v * (2 * d + d * d) < e" .
  have "int t < 2 ^ 32" using assms(4) by (metis of_nat_less_iff of_nat_numeral of_nat_power)
  then have "(of_int (int t) :: rat) < of_int (2 ^ 32)" by (simp only: of_int_less_iff)
  then have T32: "(of_nat t :: rat) < 2 ^ 32" by simp
  have gap: "e < h"
    using T0 T32 by (simp add: e_def h_def field_simps)
  have h0: "0 < h" using T0 by (simp add: h_def)
  have sn: "200 * int c + int t = 2 * int t * q + r" by (simp add: q_def r_def)
  have r0: "0 \<le> r" and r1: "r < 2 * int t" using t0 by (simp_all add: r_def)
  have rn: "r \<noteq> 0"
  proof
    assume "r = 0"
    then have "2 * int t dvd 200 * int c + int t" by (simp add: r_def mod_eq_0_iff_dvd)
    then have "int (2 * t) dvd int (200 * c + t)" by simp
    then have "2 * t dvd 200 * c + t" by (simp only: int_dvd_int_iff)
    with assms(5) show False by (simp add: mod_eq_0_iff_dvd)
  qed
  have "(of_int (200 * int c + int t) :: rat) = of_int (2 * int t * q + r)" by (simp only: sn)
  then have "200 * (of_nat c :: rat) + of_nat t = 2 * of_nat t * of_int q + of_int r" by simp
  then have vq: "v + 1 / 2 = of_int q + of_int r / (2 * of_nat t)"
    using T0 by (simp add: v_def x_def field_simps)
  have "1 \<le> r" using r0 rn by simp
  then have "(1::rat) \<le> of_int r" by simp
  then have "1 / (2 * of_nat t) \<le> of_int r / (2 * of_nat t :: rat)"
    using T0 by (simp add: field_simps)
  then have lo: "of_int q + h \<le> v + 1 / 2" by (simp add: vq h_def)
  have "r \<le> 2 * int t - 1" using r1 by simp
  then have "(of_int r :: rat) \<le> of_int (2 * int t - 1)" by (simp only: of_int_le_iff)
  then have "(of_int r :: rat) \<le> 2 * of_nat t - 1" by simp
  then have "of_int r / (2 * of_nat t :: rat) \<le> (2 * of_nat t - 1) / (2 * of_nat t)"
    using T0 by (simp add: field_simps)
  also have "\<dots> = 1 - 1 / (2 * of_nat t)" using T0 by (simp add: field_simps)
  finally have hi: "v + 1 / 2 \<le> of_int q + 1 - h" by (simp add: vq h_def)
  have fv: "\<lfloor>v + 1 / 2\<rfloor> = q"
  proof (rule floor_unique)
    show "of_int q \<le> v + 1 / 2" using lo h0 by linarith
    show "v + 1 / 2 < of_int q + 1" using hi h0 by linarith
  qed
  have fp: "\<lfloor>p + 1 / 2\<rfloor> = q"
  proof (rule floor_unique)
    show "of_int q \<le> p + 1 / 2" using lo pv(2) eta gap by linarith
    show "p + 1 / 2 < of_int q + 1" using hi pv(1) eta gap by linarith
  qed
  have "of_nat t \<noteq> (0::rat)" using t0 by simp
  then have "percentage (calculateScore answers) = Fin (of_int \<lfloor>p + 1 / 2\<rfloor>)"
    by (simp add: calculateScore_def Let_def js_div_def js_mul_def p_def y_def g_def x_def
        c_def t_def)
  then show ?thesis
    using fp fv by (simp add: calculateScore_def Let_def v_def x_def c_def t_def)
qed

text \<open>
  C6: the grade of every percentage \<open>p\<close>, the infinities and \<open>NaN\<close> included, is decided
  by inclusive lower bounds taken from the highest down: A+ when \<open>p >= 90\<close>, A when
  \<open>p >= 80\<close> and not \<open>p >= 90\<close>, B+ when \<open>p >= 70\<close> and not \<open>p >= 80\<close>, B when \<open>p >= 60\<close>
  and not \<open>p >= 70\<close>, C when \<open>p >= 50\<close> and not \<open>p >= 60\<close>, and F when not \<open>p >= 50\<close>. On a
  finite percentage \<open>x\<close> these are the intervals from 90, from 80 to below 90, from 70 to
  below 80, from 60 to below 70, from 50 to below 60, and below 50. \<open>NaN\<close>, the percentage of
  an empty answer list, and minus infinity are graded F, plus infinity is graded A+; 90 is
  graded A+, 89 is graded A, 50 is graded C and 49 is graded F.
\<close>

theorem getGradeFromPercentage_thresholds:
  "(grade (getGradeFromPercentage p) = ''A+'') = num_ge p (Fin 90)
   \<and> (grade (getGradeFromPercentage p) = ''A'') = (num_ge p (Fin 80) \<and> \<not> num_ge p (Fin 90))
   \<and> (grade (getGradeFromPercentage p) = ''B+'') = (num_ge p (Fin 70) \<and> \<not> num_ge p (Fin 80))
   \<and> (grade (getGradeFromPercentage p) = ''B'') = (num_ge p (Fin 60) \<and> \<not> num_ge p (Fin 70))
   \<and> (grade (getGradeFromPercentage p) = ''C'') = (num_ge p (Fin 50) \<and> \<not> num_ge p (Fin 60))
   \<and> (grade (getGradeFromPercentage p) = ''F'') = (\<not> num_ge p (Fin 50))
   \<and> (grade (getGradeFromPercentage (Fin x)) = ''A+'') = (90 \<le> x)
   \<and> (grade (getGradeFromPercentage (Fin x)) = ''A'') = (80 \<le> x \<and> x < 90)
   \<and> (grade (getGradeFromPercentage (Fin x)) = ''B+'') = (70 \<le> x \<and> x < 80)
   \<and> (grade (getGradeFromPercentage (Fin x)) = ''B'') = (60 \<le> x \<and> x < 70)
   \<and> (grade (getGradeFromPercentage (Fin x)) = ''C'') = (50 \<le> x \<and> x < 60)
   \<and> (grade (getGradeFromPercentage (Fin x)) = ''F'') = (x < 50)
   \<and> grade (getGradeFromPercentage NaN) = ''F''
   \<and> grade (getGradeFromPercentage PosInfinity) = ''A+''
   \<and> grade (getGradeFromPercentage NegInfinity) = ''F''
   \<and> grade (getGradeFromPercentage (Fin 90)) = ''A+''
   \<and> grade (getGradeFromPercentage (Fin 89)) = ''A''
   \<and> grade (getGradeFromPercentage (Fin 50)) = ''C''
   \<and> grade (getGradeFromPercentage (Fin 49)) = ''F''"
proof -
  have general:
    "(grade (getGradeFromPercentage p) = ''A+'') = num_ge p (Fin 90)
     \<and> (grade (getGradeFromPercentage p) = ''A'') = (num_ge p (Fin 80) \<and> \<not> num_ge p (Fin 90))
     \<and> (grade (getGradeFromPercentage p) = ''B+'') = (num_ge p (Fin 70) \<and> \<not> num_ge p (Fin 80))
     \<and> (grade (getGradeFromPercentage p) = ''B'') = (num_ge p (Fin 60) \<and> \<not> num_ge p (Fin 70))
     \<and> (grade (getGradeFromPercentage p) = ''C'') = (num_ge p (Fin 50) \<and> \<not> num_ge p (Fin 60))
     \<and> (grade (getGradeFromPercentage p) = ''F'') = (\<not> num_ge p (Fin 50))"
    by (cases p) (simp_all add: getGradeFromPercentage_def)
  have finite:
    "(grade (getGradeFromPercentage (Fin x)) = ''A+'') = (90 \<le> x)
     \<and> (grade (getGradeFromPercentage (Fin x)) = ''A'') = (80 \<le> x \<and> x < 90)
     \<and> (grade (getGradeFromPercentage (Fin x)) = ''B+'') = (70 \<le> x \<and> x < 80)
     \<and> (grade (getGradeFromPercentage (Fin x)) = ''B'') = (60 \<le> x \<and> x < 70)
     \<and> (grade (getGradeFromPercentage (Fin x)) = ''C'') = (50 \<le> x \<and> x < 60)
     \<and> (grade (getGradeFromPercentage (Fin x)) = ''F'') = (x < 50)"
    by (simp add: getGradeFromPercentage_def)
  have special:
    "grade (getGradeFromPercentage NaN) = ''F''
     \<and> grade (getGradeFromPercentage PosInfinity) = ''A+''
     \<and> grade (getGradeFromPercentage NegInfinity) = ''F''
     \<and> grade (getGradeFromPercentage (Fin 90)) = ''A+''
     \<and> grade (getGradeFromPercentage (Fin 89)) = ''A''
     \<and> grade (getGradeFromPercentage (Fin 50)) = ''C''
     \<and> grade (getGradeFromPercentage (Fin 49)) = ''F''"
    by (simp add: getGradeFromPercentage_def)
  from general finite special show ?thesis by (intro conjI) (elim conjE, assumption)+
qed

subsection \<open>The store primitives\<close>

lemma fault_at_drop [simp]: "fault_at (drop k fs) n = fault_at fs (k + n)"
  by (auto simp add: fault_at_def)

lemmas store_defs = getDoc_def setDoc_def updateDoc_def addDoc_def next_fault_def new_Date_def

subsection \<open>The status of a participant\<close>

lemma status_fallback_eq:
  "status_fallback w uid e =
     (if recoverable e
      then (case fault_at (faults w) 0 of
              Some e' \<Rightarrow> (Inl e', w\<lparr>ticks := ticks w + 1, faults := drop 1 (faults w)\<rparr>)
            | None \<Rightarrow>
                (Inr (defaultStatus uid (clock w (ticks w))),
                 w\<lparr>ticks := ticks w + 1, faults := drop 1 (faults w),
                   userTestStatus :=
                     (userTestStatus w)(uid \<mapsto> status_doc (defaultStatus uid (clock w (ticks w))))\<rparr>))
      else (Inl e, w))"
  by (simp add: status_fallback_def recoverable_def store_defs split: option.split)

text \<open>
  C7, as the code has it. When the read finds no record, or fails with \<open>not-found\<close> or
  \<open>permission-denied\<close>, the default record (not submitted, count 0, not cancelled, last
  activity now) is written and, when that write succeeds, returned. A read that fails with
  another code, a first write that fails with another code, and a failing fallback or second
  write are propagated wrapped with the context message. When the record is missing and the
  first write fails with one of the two codes, the write is attempted a second time and its
  outcome decides. Every error that reaches the caller is wrapped.
\<close>

theorem getUserTestStatus_fallback_and_errors:
  "(fault_at (faults w) 0 = None \<longrightarrow> userTestStatus w uid = None \<longrightarrow>
      fault_at (faults w) 1 = None \<longrightarrow>
        fst (getUserTestStatus w uid) = Inr (defaultStatus uid (clock w (ticks w)))
        \<and> userTestStatus (snd (getUserTestStatus w uid)) uid
            = Some (status_doc (defaultStatus uid (clock w (ticks w)))))
   \<and> (\<forall>e. fault_at (faults w) 0 = Some e \<longrightarrow> recoverable e \<longrightarrow>
          fault_at (faults w) 1 = None \<longrightarrow>
            fst (getUserTestStatus w uid) = Inr (defaultStatus uid (clock w (ticks w)))
            \<and> userTestStatus (snd (getUserTestStatus w uid)) uid
                = Some (status_doc (defaultStatus uid (clock w (ticks w)))))
   \<and> (\<forall>e. fault_at (faults w) 0 = Some e \<longrightarrow> \<not> recoverable e \<longrightarrow>
          fst (getUserTestStatus w uid) = Inl (wrapped e))
   \<and> (\<forall>e e'. fault_at (faults w) 0 = Some e \<longrightarrow> recoverable e \<longrightarrow>
          fault_at (faults w) 1 = Some e' \<longrightarrow>
            fst (getUserTestStatus w uid) = Inl (wrapped e'))
   \<and> (\<forall>e. fault_at (faults w) 0 = None \<longrightarrow> userTestStatus w uid = None \<longrightarrow>
          fault_at (faults w) 1 = Some e \<longrightarrow> \<not> recoverable e \<longrightarrow>
            fst (getUserTestStatus w uid) = Inl (wrapped e))
   \<and> (\<forall>e. fault_at (faults w) 0 = None \<longrightarrow> userTestStatus w uid = None \<longrightarrow>
          fault_at (faults w) 1 = Some e \<longrightarrow> recoverable e \<longrightarrow>
          fault_at (faults w) 2 = None \<longrightarrow>
            fst (getUserTestStatus w uid) = Inr (defaultStatus uid (clock w (ticks w + 1)))
            \<and> userTestStatus (snd (getUserTestStatus w uid)) uid
                = Some (status_doc (defaultStatus uid (clock w (ticks w + 1)))))
   \<and> (\<forall>e e'. fault_at (faults w) 0 = None \<longrightarrow> userTestStatus w uid = None \<longrightarrow>
          fault_at (faults w) 1 = Some e \<longrightarrow> recoverable e \<longrightarrow>
          fault_at (faults w) 2 = Some e' \<longrightarrow>
            fst (getUserTestStatus w uid) = Inl (wrapped e'))
   \<and> (\<forall>err. fst (getUserTestStatus w uid) = Inl err \<longrightarrow> (\<exists>e. err = wrapped e))"
proof (intro conjI impI allI)
  show "\<exists>e. err = wrapped e" if "fst (getUserTestStatus w uid) = Inl err" for err
    using that
    by (cases "status_try w uid") (auto simp add: getUserTestStatus_def wrapped_def split: sum.splits)
qed (simp_all add: getUserTestStatus_def status_try_def status_fallback_eq store_defs
       wrapped_def numeral_2_eq_2)

theorem getUserTestStatus_fallback_and_errors_witness:
  "fst (getUserTestStatus fresh_world p1) = Inr (defaultStatus p1 1000)
   \<and> userTestStatus (snd (getUserTestStatus fresh_world p1)) p1
       = Some (status_doc (defaultStatus p1 1000))
   \<and> fst (getUserTestStatus (fresh_world\<lparr>faults := [Some permission_denied]\<rparr>) p1)
       = Inr (defaultStatus p1 1000)
   \<and> fst (getUserTestStatus (fresh_world\<lparr>faults := [Some unavailable]\<rparr>) p1)
       = Inl \<lparr>err_code = None,
              err_message = ''Failed to get user test status: The service is offline''\<rparr>
   \<and> fst (getUserTestStatus (fresh_world\<lparr>faults := [Some permission_denied, Some unavailable]\<rparr>) p1)
       = Inl \<lparr>err_code = None,
              err_message = ''Failed to get user test status: The service is offline''\<rparr>
   \<and> fst (getUserTestStatus (fresh_world\<lparr>faults := [None, Some unavailable]\<rparr>) p1)
       = Inl \<lparr>err_code = None,
              err_message = ''Failed to get user test status: The service is offline''\<rparr>
   \<and> fst (getUserTestStatus (fresh_world\<lparr>faults := [None, Some permission_denied, None]\<rparr>) p1)
       = Inr (defaultStatus p1 1001)
   \<and> fst (getUserTestStatus
            (fresh_world\<lparr>faults := [None, Some permission_denied, Some unavailable]\<rparr>) p1)
       = Inl \<lparr>err_code = None,
              err_message = ''Failed to get user test status: The service is offline''\<rparr>"
proof -
  have rc: "recoverable permission_denied" "\<not> recoverable unavailable"
    by (simp_all add: recoverable_def permission_denied_def unavailable_def)
  have a: "fault_at (faults fresh_world) 0 = None" "userTestStatus fresh_world p1 = None"
    "fault_at (faults fresh_world) 1 = None"
    by (simp_all add: fault_at_def fresh_world_def)
  from getUserTestStatus_fallback_and_errors [of fresh_world p1] a
  have 1: "fst (getUserTestStatus fresh_world p1) = Inr (defaultStatus p1 1000)
     \<and> userTestStatus (snd (getUserTestStatus fresh_world p1)) p1
         = Some (status_doc (defaultStatus p1 1000))"
    by (simp add: fresh_world_def)
  have b: "fault_at (faults (fresh_world\<lparr>faults := [Some permission_denied]\<rparr>)) 0
             = Some permission_denied"
    "fault_at (faults (fresh_world\<lparr>faults := [Some permission_denied]\<rparr>)) 1 = None"
    by (simp_all add: fault_at_def)
  from getUserTestStatus_fallback_and_errors
         [of "fresh_world\<lparr>faults := [Some permission_denied]\<rparr>" p1] b rc
  have 2: "fst (getUserTestStatus (fresh_world\<lparr>faults := [Some permission_denied]\<rparr>) p1)
       = Inr (defaultStatus p1 1000)"
    by (simp add: fresh_world_def)
  have c: "fault_at (faults (fresh_world\<lparr>faults := [Some unavailable]\<rparr>)) 0 = Some unavailable"
    by (simp add: fault_at_def)
  from getUserTestStatus_fallback_and_errors
         [of "fresh_world\<lparr>faults := [Some unavailable]\<rparr>" p1] c rc
  have 3: "fst (getUserTestStatus (fresh_world\<lparr>faults := [Some unavailable]\<rparr>) p1)
       = Inl (wrapped unavailable)"
    by simp
  have d: "fault_at (faults (fresh_world\<lparr>faults := [Some permission_denied, Some unavailable]\<rparr>)) 0
             = Some permission_denied"
    "fault_at (faults (fresh_world\<lparr>faults := [Some permission_denied, Some unavailable]\<rparr>)) 1
             = Some unavailable"
    by (simp_all add: fault_at_def)
  from getUserTestStatus_fallback_and_errors
         [of "fresh_world\<lparr>faults := [Some permission_denied, Some unavailable]\<rparr>" p1] d rc
  have 4: "fst (getUserTestStatus
                  (fresh_world\<lparr>faults := [Some permission_denied, Some unavailable]\<rparr>) p1)
       = Inl (wrapped unavailable)"
    by simp
  have e: "fault_at (faults (fresh_world\<lparr>faults := [None, Some unavailable]\<rparr>)) 0 = None"
    "userTestStatus (fresh_world\<lparr>faults := [None, Some unavailable]\<rparr>) p1 = None"
    "fault_at (faults (fresh_world\<lparr>faults := [None, Some unavailable]\<rparr>)) 1 = Some unavailable"
    by (simp_all add: fault_at_def fresh_world_def)
  from getUserTestStatus_fallback_and_errors
         [of "fresh_world\<lparr>faults := [None, Some unavailable]\<rparr>" p1] e rc
  have 5: "fst (getUserTestStatus (fresh_world\<lparr>faults := [None, Some unavailable]\<rparr>) p1)
       = Inl (wrapped unavailable)"
    by simp
  have f: "fault_at (faults (fresh_world\<lparr>faults := [None, Some permission_denied, None]\<rparr>)) 0 = None"
    "userTestStatus (fresh_world\<lparr>faults := [None, Some permission_denied, None]\<rparr>) p1 = None"
    "fault_at (faults (fresh_world\<lparr>faults := [None, Some permission_denied, None]\<rparr>)) 1
       = Some permission_denied"
    "fault_at (faults (fresh_world\<lparr>faults := [None, Some permission_denied, None]\<rparr>)) 2 = None"
    by (simp_all add: fault_at_def fresh_world_def)
  from getUserTestStatus_fallback_and_errors
         [of "fresh_world\<lparr>faults := [None, Some permission_denied, None]\<rparr>" p1] f rc
  have 6: "fst (getUserTestStatus (fresh_world\<lparr>faults := [None, Some permission_denied, None]\<rparr>) p1)
       = Inr (defaultStatus p1 1001)"
    by (simp add: fresh_world_def)
  have g: "fault_at (faults (fresh_world\<lparr>faults := [None, Some permission_denied, Some unavailable]\<rparr>)) 0
       = None"
    "userTestStatus (fresh_world\<lparr>faults := [None, Some permission_denied, Some unavailable]\<rparr>) p1
       = None"
    "fault_at (faults (fresh_world\<lparr>faults := [None, Some permission_denied, Some unavailable]\<rparr>)) 1
       = Some permission_denied"
    "fault_at (faults (fresh_world\<lparr>faults := [None, Some permission_denied, Some unavailable]\<rparr>)) 2
       = Some unavailable"
    by (simp_all add: fault_at_def fresh_world_def)
  from getUserTestStatus_fallback_and_errors
         [of "fresh_world\<lparr>faults := [None, Some permission_denied, Some unavailable]\<rparr>" p1] g rc
  have 7: "fst (getUserTestStatus
                  (fresh_world\<lparr>faults := [None, Some permission_denied, Some unavailable]\<rparr>) p1)
       = Inl (wrapped unavailable)"
    by simp
  from 1 2 3 4 5 6 7 show ?thesis by (simp add: wrapped_def unavailable_def)
qed

text \<open>
  C7 as stated has every failure other than a missing record or a \<open>not-found\<close> or
  \<open>permission-denied\<close> read propagated. Here the read finds no record and the first write
  is rejected with \<open>permission-denied\<close>: the handler writes again, the second write goes
  through, and the call returns the default record; the failure of the write never reaches
  the caller.
\<close>

theorem getUserTestStatus_swallows_write_failure:
  "userTestStatus (fresh_world\<lparr>faults := [None, Some permission_denied]\<rparr>) p1 = None
   \<and> fault_at (faults (fresh_world\<lparr>faults := [None, Some permission_denied]\<rparr>)) 1
       = Some permission_denied
   \<and> fst (getUserTestStatus (fresh_world\<lparr>faults := [None, Some permission_denied]\<rparr>) p1)
       = Inr (defaultStatus p1 1001)"
  by (simp add: getUserTestStatus_def status_try_def status_fallback_def store_defs
      fault_at_def fresh_world_def permission_denied_def)

text \<open>
  Adding 1 to a count below \<open>2^53\<close> is exact: the sum is at most \<open>2^53\<close>, which binary64
  holds. One step further it is not: \<open>2^53 + 1\<close> lies half-way between \<open>2^53\<close> and
  \<open>2^53 + 2\<close> and is rounded to the neighbour with the even significand, \<open>2^53\<close>.
\<close>

lemma fl_2_53: "fl 9007199254740992 = 9007199254740992"
  by code_simp

lemma fl_2_53_plus_1: "fl 9007199254740993 = 9007199254740992"
  by code_simp

lemma js_add_count:
  assumes "N < 2 ^ 53"
  shows "js_add (of_nat N) 1 = of_nat N + 1"
proof (cases "Suc N < 2 ^ 53")
  case True
  have "js_add (of_nat N) 1 = fl (of_nat (Suc N))" by (simp add: js_add_def add.commute)
  also have "\<dots> = of_nat (Suc N)" using True by (rule fl_of_nat_exact)
  finally show ?thesis by (simp add: add.commute)
next
  case False
  with assms have "Suc N = 2 ^ 53" by simp
  then have "Suc N = 9007199254740992" by simp
  then have n: "(of_nat (Suc N) :: rat) = 9007199254740992" by (simp only: of_nat_numeral)
  have "js_add (of_nat N) 1 = fl (of_nat (Suc N))" by (simp add: js_add_def add.commute)
  also have "\<dots> = of_nat (Suc N)" by (simp only: n fl_2_53)
  finally show ?thesis by (simp add: add.commute)
qed

text \<open>
  C8, as the code has it. When the read and the write go through and the store holds the
  count \<open>N\<close> for the participant (an absent record and a missing count field read as 0),
  with \<open>N < 2^53\<close>, \<open>incrementTabSwitchCount\<close> returns \<open>N + 1\<close> and the store holds the count
  \<open>N + 1\<close> afterwards: an existing record keeps its other fields and has its last activity
  refreshed, an absent record is created with the default fields and count 1. The bound is
  needed: \<open>currentCount + 1\<close> is a binary64 addition, and on a stored count of \<open>2^53\<close> the
  function returns and stores \<open>2^53\<close> again.
\<close>

theorem incrementTabSwitchCount_adds_one:
  assumes "fault_at (faults w) 0 = None" and "fault_at (faults w) 1 = None"
    and "stored_count w uid = of_nat N" and "N < 2 ^ 53"
  shows "fst (incrementTabSwitchCount w uid) = Inr (of_nat N + 1)
     \<and> stored_count (snd (incrementTabSwitchCount w uid)) uid = of_nat N + 1
     \<and> userTestStatus (snd (incrementTabSwitchCount w uid)) uid
         = Some (case userTestStatus w uid of
                   Some d \<Rightarrow>
                     d\<lparr>doc_tabSwitchCount := Some (of_nat N + 1),
                       doc_lastActivity := Some (clock w (ticks w))\<rparr>
                 | None \<Rightarrow>
                     \<lparr>doc_userId = Some uid, doc_hasSubmitted = Some False,
                      doc_submissionDate = None, doc_tabSwitchCount = Some 1,
                      doc_isTestCancelled = Some False,
                      doc_lastActivity = Some (clock w (ticks w))\<rparr>)"
proof (cases "userTestStatus w uid")
  case None
  with assms(3) have "(of_nat N :: rat) = 0" by (simp add: stored_count_def)
  then have "N = 0" by simp
  with None assms(1,2) show ?thesis
    by (simp add: incrementTabSwitchCount_def stored_count_def store_defs Let_def)
next
  case (Some d)
  with assms(3) have "(case doc_tabSwitchCount d of Some n \<Rightarrow> n | None \<Rightarrow> 0) = of_nat N"
    by (simp add: stored_count_def)
  with Some assms(1,2) js_add_count [OF assms(4)] show ?thesis
    by (simp add: incrementTabSwitchCount_def stored_count_def store_defs Let_def
        merge_fields_def)
qed

theorem incrementTabSwitchCount_adds_one_witness:
  "fault_at (faults fresh_world) 0 = None \<and> fault_at (faults fresh_world) 1 = None
   \<and> stored_count fresh_world p1 = 0
   \<and> fst (incrementTabSwitchCount fresh_world p1) = Inr 1
   \<and> stored_count (snd (incrementTabSwitchCount fresh_world p1)) p1 = 1
   \<and> fault_at (faults counted_world) 0 = None \<and> fault_at (faults counted_world) 1 = None
   \<and> stored_count counted_world p1 = 4
   \<and> fst (incrementTabSwitchCount counted_world p1) = Inr 5
   \<and> stored_count (snd (incrementTabSwitchCount counted_world p1)) p1 = 5"
proof -
  have h: "fault_at (faults fresh_world) 0 = None" "fault_at (faults fresh_world) 1 = None"
    by (simp_all add: fault_at_def fresh_world_def)
  have c: "stored_count fresh_world p1 = of_nat 0"
    by (simp add: stored_count_def fresh_world_def)
  have h': "fault_at (faults counted_world) 0 = None" "fault_at (faults counted_world) 1 = None"
    by (simp_all add: fault_at_def counted_world_def fresh_world_def)
  have c': "stored_count counted_world p1 = of_nat 4"
    by (simp add: stored_count_def counted_world_def status_doc_def defaultStatus_def)
  have b: "(0::nat) < 2 ^ 53" "(4::nat) < 2 ^ 53" by simp_all
  from incrementTabSwitchCount_adds_one [OF h c b(1)]
  have 1: "fst (incrementTabSwitchCount fresh_world p1) = Inr 1
     \<and> stored_count (snd (incrementTabSwitchCount fresh_world p1)) p1 = 1"
    by simp
  from incrementTabSwitchCount_adds_one [OF h' c' b(2)]
  have 2: "fst (incrementTabSwitchCount counted_world p1) = Inr 5
     \<and> stored_count (snd (incrementTabSwitchCount counted_world p1)) p1 = 5"
    by simp
  from h h' c c' 1 2 show ?thesis by simp
qed

theorem incrementTabSwitchCount_stuck_at_2_53:
  "fault_at (faults saturated_world) 0 = None \<and> fault_at (faults saturated_world) 1 = None
   \<and> stored_count saturated_world p1 = 9007199254740992
   \<and> fst (incrementTabSwitchCount saturated_world p1) = Inr 9007199254740992
   \<and> fst (incrementTabSwitchCount saturated_world p1) \<noteq> Inr (9007199254740992 + 1)
   \<and> stored_count (snd (incrementTabSwitchCount saturated_world p1)) p1 = 9007199254740992
   \<and> stored_count (snd (incrementTabSwitchCount saturated_world p1)) p1
       \<noteq> 9007199254740992 + 1"
proof -
  have h: "fault_at (faults saturated_world) 0 = None"
    "fault_at (faults saturated_world) 1 = None"
    by (simp_all add: fault_at_def saturated_world_def fresh_world_def)
  have c: "stored_count saturated_world p1 = 9007199254740992"
    by (simp add: stored_count_def saturated_world_def status_doc_def defaultStatus_def)
  have a: "js_add 9007199254740992 1 = 9007199254740992"
    using fl_2_53_plus_1 by (simp add: js_add_def)
  have r: "fst (incrementTabSwitchCount saturated_world p1) = Inr 9007199254740992"
    using a
    by (simp add: incrementTabSwitchCount_def store_defs Let_def merge_fields_def
        saturated_world_def fresh_world_def status_doc_def defaultStatus_def fault_at_def)
  have s: "stored_count (snd (incrementTabSwitchCount saturated_world p1)) p1
      = 9007199254740992"
    using a
    by (simp add: incrementTabSwitchCount_def stored_count_def store_defs Let_def
        merge_fields_def saturated_world_def fresh_world_def status_doc_def defaultStatus_def
        fault_at_def)
  from h c r s show ?thesis by simp
qed

subsection \<open>Submitting a result\<close>

lemma markTestAsSubmitted_ok:
  assumes "fault_at (faults w) 0 = None" and "fault_at (faults w) 1 = None"
  shows "fst (markTestAsSubmitted w uid) = Inr ()
    \<and> faults (snd (markTestAsSubmitted w uid)) = drop (Suc (Suc 0)) (faults w)
    \<and> ticks (snd (markTestAsSubmitted w uid)) = ticks w + 2
    \<and> clock (snd (markTestAsSubmitted w uid)) = clock w
    \<and> testResults (snd (markTestAsSubmitted w uid)) = testResults w
    \<and> map_option doc_hasSubmitted (userTestStatus (snd (markTestAsSubmitted w uid)) uid)
        = Some (Some True)
    \<and> map_option doc_submissionDate (userTestStatus (snd (markTestAsSubmitted w uid)) uid)
        = Some (Some (clock w (ticks w)))"
  using assms
  by (simp add: markTestAsSubmitted_def store_defs merge_fields_def split: option.split)

lemma markTestAsSubmitted_results:
  "testResults (snd (markTestAsSubmitted w uid)) = testResults w"
  by (simp add: markTestAsSubmitted_def store_defs split: option.split prod.split sum.split)

text \<open>
  C9: when the three store calls go through, \<open>submitTestResult\<close> returns the identity the
  store assigned to the new record; the record is the caller's result with the completion
  instant set to the clock's reading taken for the write (the third reading, after the two
  of the marking), whatever completion instant the caller supplied; and the participant's
  status has the submitted flag true and the submission instant set to the first reading.
  The marking comes first: when it fails, its error is thrown on and no record is added.
\<close>

theorem submitTestResult_marks_then_persists:
  "(fault_at (faults w) 0 = None \<longrightarrow> fault_at (faults w) 1 = None \<longrightarrow> fault_at (faults w) 2 = None \<longrightarrow>
      fst (submitTestResult w r) = Inr (length (testResults w))
      \<and> testResults (snd (submitTestResult w r))
          = testResults w @ [(length (testResults w), r\<lparr>r_completedAt := clock w (ticks w + 2)\<rparr>)]
      \<and> map_option doc_hasSubmitted (userTestStatus (snd (submitTestResult w r)) (r_userId r))
          = Some (Some True)
      \<and> map_option doc_submissionDate (userTestStatus (snd (submitTestResult w r)) (r_userId r))
          = Some (Some (clock w (ticks w))))
   \<and> submitTestResult w (r\<lparr>r_completedAt := c\<rparr>) = submitTestResult w r
   \<and> (\<forall>e. fst (markTestAsSubmitted w (r_userId r)) = Inl e \<longrightarrow>
          fst (submitTestResult w r) = Inl (rethrow ''Failed to submit test result'' e)
          \<and> testResults (snd (submitTestResult w r)) = testResults w)"
proof (intro conjI impI allI)
  assume a: "fault_at (faults w) 0 = None" "fault_at (faults w) 1 = None"
    "fault_at (faults w) 2 = None"
  from a(3) have a3: "fault_at (faults w) (Suc (Suc 0)) = None"
    by (simp add: numeral_2_eq_2)
  obtain w1 where w1: "markTestAsSubmitted w (r_userId r) = (Inr (), w1)"
    using markTestAsSubmitted_ok [OF a(1,2), of "r_userId r"]
    by (cases "markTestAsSubmitted w (r_userId r)") simp
  from markTestAsSubmitted_ok [OF a(1,2), of "r_userId r"] w1
  have p: "faults w1 = drop (Suc (Suc 0)) (faults w)" "ticks w1 = ticks w + 2" "clock w1 = clock w"
    "testResults w1 = testResults w"
    "map_option doc_hasSubmitted (userTestStatus w1 (r_userId r)) = Some (Some True)"
    "map_option doc_submissionDate (userTestStatus w1 (r_userId r)) = Some (Some (clock w (ticks w)))"
    by simp_all
  show "fst (submitTestResult w r) = Inr (length (testResults w))"
    using a3 p by (simp add: submitTestResult_def w1 store_defs Let_def)
  show "testResults (snd (submitTestResult w r))
          = testResults w @ [(length (testResults w), r\<lparr>r_completedAt := clock w (ticks w + 2)\<rparr>)]"
    using a3 p by (simp add: submitTestResult_def w1 store_defs Let_def)
  show "map_option doc_hasSubmitted (userTestStatus (snd (submitTestResult w r)) (r_userId r))
          = Some (Some True)"
    using a3 p by (simp add: submitTestResult_def w1 store_defs Let_def)
  show "map_option doc_submissionDate (userTestStatus (snd (submitTestResult w r)) (r_userId r))
          = Some (Some (clock w (ticks w)))"
    using a3 p by (simp add: submitTestResult_def w1 store_defs Let_def)
next
  show "submitTestResult w (r\<lparr>r_completedAt := c\<rparr>) = submitTestResult w r"
    by (simp add: submitTestResult_def split: prod.split sum.split)
next
  fix e assume "fst (markTestAsSubmitted w (r_userId r)) = Inl e"
  then show "fst (submitTestResult w r) = Inl (rethrow ''Failed to submit test result'' e)"
    by (cases "markTestAsSubmitted w (r_userId r)") (simp add: submitTestResult_def)
next
  fix e assume a: "fst (markTestAsSubmitted w (r_userId r)) = Inl e"
  have "testResults (snd (markTestAsSubmitted w (r_userId r))) = testResults w"
    by (rule markTestAsSubmitted_results)
  with a show "testResults (snd (submitTestResult w r)) = testResults w"
    by (cases "markTestAsSubmitted w (r_userId r)") (simp add: submitTestResult_def)
qed

theorem submitTestResult_marks_then_persists_witness:
  "fault_at (faults fresh_world) 0 = None \<and> fault_at (faults fresh_world) 1 = None
   \<and> fault_at (faults fresh_world) 2 = None
   \<and> fst (submitTestResult fresh_world sample_result) = Inr 0
   \<and> testResults (snd (submitTestResult fresh_world sample_result))
       = [(0, sample_result\<lparr>r_completedAt := 1002\<rparr>)]
   \<and> map_option doc_hasSubmitted
        (userTestStatus (snd (submitTestResult fresh_world sample_result)) p1) = Some (Some True)
   \<and> map_option doc_submissionDate
        (userTestStatus (snd (submitTestResult fresh_world sample_result)) p1) = Some (Some 1000)
   \<and> fst (markTestAsSubmitted (fresh_world\<lparr>faults := [Some unavailable]\<rparr>) p1)
       = Inl (rethrow ''Failed to mark test as submitted'' unavailable)
   \<and> testResults (snd (submitTestResult (fresh_world\<lparr>faults := [Some unavailable]\<rparr>) sample_result))
       = []"
proof -
  have h: "fault_at (faults fresh_world) 0 = None" "fault_at (faults fresh_world) 1 = None"
    "fault_at (faults fresh_world) 2 = None"
    by (simp_all add: fault_at_def fresh_world_def)
  have u: "r_userId sample_result = p1" by (simp add: sample_result_def)
  have m: "fst (markTestAsSubmitted (fresh_world\<lparr>faults := [Some unavailable]\<rparr>) p1)
       = Inl (rethrow ''Failed to mark test as submitted'' unavailable)"
    by (simp add: markTestAsSubmitted_def store_defs fault_at_def)
  from submitTestResult_marks_then_persists [of fresh_world sample_result 0] h u
  have 1: "fst (submitTestResult fresh_world sample_result) = Inr 0
   \<and> testResults (snd (submitTestResult fresh_world sample_result))
       = [(0, sample_result\<lparr>r_completedAt := 1002\<rparr>)]
   \<and> map_option doc_hasSubmitted
        (userTestStatus (snd (submitTestResult fresh_world sample_result)) p1) = Some (Some True)
   \<and> map_option doc_submissionDate
        (userTestStatus (snd (submitTestResult fresh_world sample_result)) p1) = Some (Some 1000)"
    by (simp add: fresh_world_def)
  from submitTestResult_marks_then_persists
         [of "fresh_world\<lparr>faults := [Some unavailable]\<rparr>" sample_result 0] m u
  have 2: "testResults (snd (submitTestResult (fresh_world\<lparr>faults := [Some unavailable]\<rparr>) sample_result))
       = []"
    by (simp add: fresh_world_def)
  from h 1 m 2 show ?thesis by simp
qed

end
